theory Spec2Isabelle
  imports
    Complex_Main
    "HOL-Library.Log_Nat"
    "HOL-Library.Multiset"
    "HOL-Library.Sublist"
begin

section \<open>Python values the scripts compute with\<close>

text \<open>
  The exceptions the modelled code can raise. \<open>TyperExit c\<close> is \<^verbatim>\<open>typer.Exit(c)\<close>, which
  the command-line framework turns into the exit code \<open>c\<close> of the process.
\<close>

datatype py_error =
    ZeroDivisionError
  | OverflowError
  | KeyError
  | ValueError string
  | RuntimeError string
  | AssertionError
  | JSONDecodeError
  | TyperExit int

subsection \<open>True division of integers and \<^verbatim>\<open>math.ceil\<close>\<close>

text \<open>
  \<^verbatim>\<open>normalize_timestamp\<close> divides with \<^verbatim>\<open>/\<close>. On two Python integers this is true
  division: the result is the binary64 number nearest to the exact quotient (ties to the
  even significand), \<^verbatim>\<open>ZeroDivisionError\<close> for a zero divisor and \<^verbatim>\<open>OverflowError\<close>
  when the rounded quotient does not fit a double. A finite double is written here as a
  pair \<open>(m, e)\<close> of integers standing for \<open>m * 2 ^ e\<close>.
\<close>

type_synonym py_float = "int \<times> int"

text \<open>\<open>ilog2_quot a b\<close> is the exponent of the leading bit of \<open>a / b\<close>, for positive \<open>a\<close>, \<open>b\<close>.\<close>

definition ilog2_quot :: "int \<Rightarrow> int \<Rightarrow> int" where
  "ilog2_quot a b =
     (let d = bitlen a - bitlen b in
      if (if 0 \<le> d then b * 2 ^ nat d \<le> a else b \<le> a * 2 ^ nat (- d)) then d else d - 1)"

text \<open>\<open>n / d\<close> rounded to the nearest integer, ties to even (\<open>0 \<le> n\<close>, \<open>0 < d\<close>).\<close>

definition round_half_even :: "int \<Rightarrow> int \<Rightarrow> int" where
  "round_half_even n d =
     (let m = n div d; r = n mod d in
      if d < 2 * r \<or> (2 * r = d \<and> odd m) then m + 1 else m)"

text \<open>
  The double nearest to \<open>a / b\<close> for \<open>0 \<le> a\<close>, \<open>0 < b\<close>: 53 significant bits, and no
  exponent below that of the subnormal numbers.
\<close>

definition nearest_double :: "int \<Rightarrow> int \<Rightarrow> py_float" where
  "nearest_double a b =
     (if a = 0 then (0, 0)
      else let e = max (ilog2_quot a b - 52) (- 1074) in
        if 0 \<le> e then (round_half_even a (b * 2 ^ nat e), e)
        else (round_half_even (a * 2 ^ nat (- e)) b, e))"

definition int_truediv :: "int \<Rightarrow> int \<Rightarrow> py_error + py_float" where
  "int_truediv a b =
     (if b = 0 then Inl ZeroDivisionError
      else let (m, e) = nearest_double \<bar>a\<bar> \<bar>b\<bar> in
        if 0 \<le> e \<and> 2 ^ 1024 \<le> m * 2 ^ nat e then Inl OverflowError
        else Inr (if (a < 0) \<noteq> (b < 0) then - m else m, e))"

text \<open>\<^verbatim>\<open>math.ceil\<close> of a finite double is the exact integer ceiling.\<close>

definition math_ceil :: "py_float \<Rightarrow> int" where
  "math_ceil x =
     (case x of (m, e) \<Rightarrow> if 0 \<le> e then m * 2 ^ nat e else - ((- m) div 2 ^ nat (- e)))"

section \<open>The batch feeder: \<^verbatim>\<open>feed_bulk_from_db.py\<close>\<close>

definition RESOLUTION :: int where
  "RESOLUTION = 600"

definition normalize_timestamp :: "int \<Rightarrow> int \<Rightarrow> py_error + int" where
  "normalize_timestamp unnormalized_timestamp resolution =
     (case int_truediv unnormalized_timestamp resolution of
        Inl err \<Rightarrow> Inl err
      | Inr q \<Rightarrow> Inr (math_ceil q * resolution))"

subsection \<open>Rows, the database and the command line\<close>

text \<open>
  The seven columns the \<^verbatim>\<open>SELECT\<close> of \<^verbatim>\<open>read_prices_from_db\<close> returns. \<open>row_id\<close> is
  the column \<^verbatim>\<open>id\<close>.
\<close>

record price_row =
  row_id :: int
  updated_at :: int
  source :: int
  symbol :: string
  price :: string
  sell_asset :: string
  buy_asset :: string

text \<open>
  A row of the table \<^verbatim>\<open>prices\<close>: the selected columns and the three the query filters
  on (\<open>row_asset_type\<close> is the column \<^verbatim>\<open>asset_type\<close>).
\<close>

record db_row = price_row +
  status :: string
  row_asset_type :: string
  added_to_blockchain :: int

text \<open>\<^verbatim>\<open>result_dict\<close> once the loop has stored the key \<^verbatim>\<open>normalized_timestamp\<close> in it.\<close>

record result_dict = price_row +
  normalized_timestamp :: int

text \<open>
  The dictionary \<^verbatim>\<open>parsed_price\<close> that is serialised for the command line; its keys are
  \<^verbatim>\<open>source\<close>, \<^verbatim>\<open>asset_type\<close>, \<^verbatim>\<open>asset\<close>, \<^verbatim>\<open>price\<close> and \<^verbatim>\<open>timestamp\<close>.
\<close>

record parsed_price =
  pp_source :: int
  pp_asset_type :: string
  pp_asset :: string
  pp_price :: string
  pp_timestamp :: int

text \<open>
  The two contract identifiers are imported from the package \<^verbatim>\<open>lightecho_stellar_oracle\<close>.
  A command is kept as the contract it addresses and the list that \<^verbatim>\<open>list_to_base64\<close>
  encodes into its last argument.
\<close>

datatype oracle_contract = TESTNET_CONTRACT_XLM | TESTNET_CONTRACT_USD

record cli_cmd =
  oracle_contract_id :: oracle_contract
  add_prices_base64 :: "parsed_price list"

record log_entry =
  command :: cli_cmd
  output_text :: string
  success :: bool

record db =
  prices :: "db_row list"
  feed_bulk_from_db_logs :: "log_entry list"

definition log_result_to_db :: "cli_cmd \<Rightarrow> bool \<Rightarrow> string \<Rightarrow> db \<Rightarrow> db" where
  "log_result_to_db cmd succ outp d =
     d\<lparr>feed_bulk_from_db_logs :=
         feed_bulk_from_db_logs d @ [\<lparr>command = cmd, output_text = outp, success = succ\<rparr>]\<rparr>"

text \<open>
  \<^verbatim>\<open>UPDATE prices SET added_to_blockchain = 1 WHERE source = ? AND symbol IN (...)\<close>
\<close>

definition mark_symbols_as_added_to_blockchain :: "int \<Rightarrow> string list \<Rightarrow> db \<Rightarrow> db" where
  "mark_symbols_as_added_to_blockchain src symbols d =
     d\<lparr>prices :=
         map (\<lambda>r. if source r = src \<and> symbol r \<in> set symbols
                  then r\<lparr>added_to_blockchain := 1\<rparr> else r) (prices d)\<rparr>"

text \<open>\<^verbatim>\<open>source_symbols.setdefault(k, []).append(v)\<close> on a dictionary kept in insertion order.\<close>

fun setdefault_append :: "(int \<times> string list) list \<Rightarrow> int \<Rightarrow> string \<Rightarrow> (int \<times> string list) list" where
  "setdefault_append [] k v = [(k, [v])]"
| "setdefault_append ((k', vs) # rest) k v =
     (if k' = k then (k', vs @ [v]) # rest else (k', vs) # setdefault_append rest k v)"

definition parse_price :: "result_dict \<Rightarrow> parsed_price" where
  "parse_price p =
     \<lparr>pp_source = source p, pp_asset_type = ''other'', pp_asset = buy_asset p,
      pp_price = price p, pp_timestamp = normalized_timestamp p\<rparr>"

text \<open>
  The first loop of \<^verbatim>\<open>add_prices_to_blockchain\<close>, with the three accumulators
  \<^verbatim>\<open>xlm_based_prices\<close>, \<^verbatim>\<open>usd_based_prices\<close> and \<^verbatim>\<open>source_symbols\<close>.
\<close>

fun group_prices ::
  "result_dict list \<Rightarrow> parsed_price list \<Rightarrow> parsed_price list \<Rightarrow> (int \<times> string list) list \<Rightarrow>
   py_error + (parsed_price list \<times> parsed_price list \<times> (int \<times> string list) list)" where
  "group_prices [] xlm usd source_symbols = Inr (xlm, usd, source_symbols)"
| "group_prices (p # rest) xlm usd source_symbols =
     (let source_symbols' = setdefault_append source_symbols (source p) (symbol p) in
      if sell_asset p = ''XLM'' then group_prices rest (xlm @ [parse_price p]) usd source_symbols'
      else if sell_asset p = ''USD'' then group_prices rest xlm (usd @ [parse_price p]) source_symbols'
      else Inl (ValueError (''Unexpected price sell_asset: '' @ sell_asset p)))"

text \<open>
  One of the two \<^verbatim>\<open>if ..._based_prices:\<close> blocks: the command is run and its result logged. \<open>run_cli\<close> is the
  subprocess: it answers a command with the pair \<^verbatim>\<open>(success, output)\<close>.
\<close>

definition submit_group :: "(cli_cmd \<Rightarrow> bool \<times> string) \<Rightarrow> oracle_contract \<Rightarrow> parsed_price list \<Rightarrow> db \<Rightarrow> db" where
  "submit_group run_cli contract grp d =
     (if grp = [] then d
      else let cmd = \<lparr>oracle_contract_id = contract, add_prices_base64 = grp\<rparr>;
               (succ, outp) = run_cli cmd
           in log_result_to_db cmd succ outp d)"

text \<open>
  An exception of the grouping loop leaves before anything is run or written, so the
  database of an \<open>Inl\<close> result is the one the function was called with.
\<close>

definition add_prices_to_blockchain ::
  "(cli_cmd \<Rightarrow> bool \<times> string) \<Rightarrow> result_dict list \<Rightarrow> db \<Rightarrow> py_error + db" where
  "add_prices_to_blockchain run_cli ps d =
     (case group_prices ps [] [] [] of
        Inl err \<Rightarrow> Inl err
      | Inr (xlm_based_prices, usd_based_prices, source_symbols) \<Rightarrow>
          Inr (fold (\<lambda>(src, symbols). mark_symbols_as_added_to_blockchain src symbols) source_symbols
                 (submit_group run_cli TESTNET_CONTRACT_USD usd_based_prices
                    (submit_group run_cli TESTNET_CONTRACT_XLM xlm_based_prices d))))"

text \<open>
  The query: active rows of asset type \<^verbatim>\<open>other\<close> not yet added, newest first. Rows with
  equal \<^verbatim>\<open>updated_at\<close> are left in table order.
\<close>

definition unsent :: "db_row \<Rightarrow> bool" where
  "unsent r \<longleftrightarrow> status r = ''active'' \<and> row_asset_type r = ''other'' \<and> added_to_blockchain r = 0"

definition select_prices :: "db_row list \<Rightarrow> price_row list" where
  "select_prices tbl = sort_key (\<lambda>r. - updated_at r) (map price_row.truncate (filter unsent tbl))"

definition with_normalized_timestamp :: "price_row \<Rightarrow> int \<Rightarrow> result_dict" where
  "with_normalized_timestamp r nt =
     \<lparr>row_id = row_id r, updated_at = updated_at r, source = source r, symbol = symbol r,
      price = price r, sell_asset = sell_asset r, buy_asset = buy_asset r,
      normalized_timestamp = nt\<rparr>"

text \<open>
  The loop over \<^verbatim>\<open>cursor.fetchall()\<close>. \<open>now i\<close> is what
  \<^verbatim>\<open>int(datetime.now().timestamp())\<close> gives in iteration \<open>i\<close>; \<open>symbols\<close> is the dictionary
  from a source to the symbols kept for it, \<open>ps\<close> the list \<^verbatim>\<open>prices\<close>.
\<close>

fun read_prices_loop ::
  "(nat \<Rightarrow> int) \<Rightarrow> nat \<Rightarrow> price_row list \<Rightarrow> (int \<rightharpoonup> string list) \<Rightarrow> result_dict list \<Rightarrow>
   py_error + result_dict list" where
  "read_prices_loop now i [] symbols ps = Inr ps"
| "read_prices_loop now i (result # rest) symbols ps =
     (let symbols1 = (if symbols (source result) = None then symbols(source result \<mapsto> []) else symbols)
      in case symbols1 (source result) of
           None \<Rightarrow> Inl KeyError
         | Some seen \<Rightarrow>
             if symbol result \<in> set seen then read_prices_loop now (Suc i) rest symbols1 ps
             else let current_timestamp = now i in
               case normalize_timestamp current_timestamp RESOLUTION of
                 Inl err \<Rightarrow> Inl err
               | Inr nt \<Rightarrow>
                   if nt \<le> current_timestamp
                   then read_prices_loop now (Suc i) rest
                          (symbols1(source result \<mapsto> seen @ [symbol result]))
                          (ps @ [with_normalized_timestamp result nt])
                   else read_prices_loop now (Suc i) rest symbols1 ps)"

definition read_prices_from_db :: "(nat \<Rightarrow> int) \<Rightarrow> (cli_cmd \<Rightarrow> bool \<times> string) \<Rightarrow> db \<Rightarrow> py_error + db" where
  "read_prices_from_db now run_cli d =
     (case read_prices_loop now 0 (select_prices (prices d)) Map.empty [] of
        Inl err \<Rightarrow> Inl err
      | Inr ps \<Rightarrow> if length ps = 0 then Inr d else add_prices_to_blockchain run_cli ps d)"

subsection \<open>What the specification says of the batcher\<close>

text \<open>
  Following the specification's words: of the rows that share a (source, symbol) pair
  only the first in input order is kept. \<open>seen\<close> holds the pairs met so far.
\<close>

fun first_occurrences :: "(int \<times> string) list \<Rightarrow> price_row list \<Rightarrow> price_row list" where
  "first_occurrences seen [] = []"
| "first_occurrences seen (r # rs) =
     (if (source r, symbol r) \<in> set seen then first_occurrences seen rs
      else r # first_occurrences ((source r, symbol r) # seen) rs)"

text \<open>The rows whose iteration reads a clock value that is an exact multiple of 600.\<close>

fun aligned_rows :: "(nat \<Rightarrow> int) \<Rightarrow> nat \<Rightarrow> price_row list \<Rightarrow> price_row list" where
  "aligned_rows now i [] = []"
| "aligned_rows now i (r # rs) =
     (if now i mod 600 = 0 then r # aligned_rows now (Suc i) rs else aligned_rows now (Suc i) rs)"

subsection \<open>Notions used to state what the read loop keeps\<close>

text \<open>The (source, symbol) pairs recorded in the dictionary \<^verbatim>\<open>symbols\<close>.\<close>

definition symbols_hold :: "(int \<rightharpoonup> string list) \<Rightarrow> (int \<times> string) set" where
  "symbols_hold symbols = {(s, y). \<exists>l. symbols s = Some l \<and> y \<in> set l}"

text \<open>
  \<open>kept_from now i rows p\<close>: the entry \<open>p\<close> of \<^verbatim>\<open>prices\<close> is some row of \<open>rows\<close> whose
  iteration read an exact multiple of 600 from the clock, with that reading as its
  \<^verbatim>\<open>normalized_timestamp\<close>. \<open>i\<close> is the number of the iteration that handles the first row.
\<close>

definition kept_from :: "(nat \<Rightarrow> int) \<Rightarrow> nat \<Rightarrow> price_row list \<Rightarrow> result_dict \<Rightarrow> bool" where
  "kept_from now i rows p \<longleftrightarrow>
     (\<exists>j<length rows. price_row.truncate p = rows ! j
        \<and> now (i + j) mod 600 = 0 \<and> normalized_timestamp p = now (i + j))"

text \<open>The (source, symbol) pairs recorded in the dictionary \<^verbatim>\<open>source_symbols\<close>.\<close>

definition pairs_of :: "(int \<times> string list) list \<Rightarrow> (int \<times> string) set" where
  "pairs_of source_symbols = {(s, y). \<exists>l. (s, l) \<in> set source_symbols \<and> y \<in> set l}"

text \<open>What the \<^verbatim>\<open>UPDATE\<close> statements do to one row when they are run for the pairs \<open>pairs\<close>.\<close>

definition mark_row :: "(int \<times> string) set \<Rightarrow> db_row \<Rightarrow> db_row" where
  "mark_row pairs r = (if (source r, symbol r) \<in> pairs then r\<lparr>added_to_blockchain := 1\<rparr> else r)"

subsection \<open>Inputs on which the feeder is run below\<close>

definition example_row :: db_row where
  "example_row =
     \<lparr>row_id = 1, updated_at = 1234, source = 1, symbol = ''AXLM'', price = ''1.00'',
      sell_asset = ''XLM'', buy_asset = ''A'',
      status = ''active'', row_asset_type = ''other'', added_to_blockchain = 0\<rparr>"

definition example_db :: db where
  "example_db = \<lparr>prices = [example_row], feed_bulk_from_db_logs = []\<rparr>"

definition first_quote :: price_row where
  "first_quote =
     \<lparr>row_id = 2, updated_at = 1190, source = 1, symbol = ''AXLM'', price = ''2.00'',
      sell_asset = ''XLM'', buy_asset = ''A''\<rparr>"

definition second_quote :: price_row where
  "second_quote =
     \<lparr>row_id = 1, updated_at = 1180, source = 1, symbol = ''AXLM'', price = ''1.00'',
      sell_asset = ''XLM'', buy_asset = ''A''\<rparr>"

definition usd_quote :: price_row where
  "usd_quote =
     \<lparr>row_id = 3, updated_at = 1170, source = 2, symbol = ''BUSD'', price = ''3.00'',
      sell_asset = ''USD'', buy_asset = ''B''\<rparr>"

definition eur_quote :: price_row where
  "eur_quote =
     \<lparr>row_id = 4, updated_at = 1160, source = 2, symbol = ''BEUR'', price = ''4.00'',
      sell_asset = ''EUR'', buy_asset = ''B''\<rparr>"

text \<open>A row as an active, not yet added entry of the table, and a table of two such rows.\<close>

definition stored :: "price_row \<Rightarrow> db_row" where
  "stored r =
     \<lparr>row_id = row_id r, updated_at = updated_at r, source = source r, symbol = symbol r,
      price = price r, sell_asset = sell_asset r, buy_asset = buy_asset r,
      status = ''active'', row_asset_type = ''other'', added_to_blockchain = 0\<rparr>"

definition two_quotes_db :: db where
  "two_quotes_db = \<lparr>prices = [stored second_quote, stored first_quote], feed_bulk_from_db_logs = []\<rparr>"

text \<open>A clock that shows \<open>t\<close> throughout the run, and one that advances a second per row.\<close>

definition clock_at :: "int \<Rightarrow> nat \<Rightarrow> int" where
  "clock_at t i = t"

definition clock_from :: "int \<Rightarrow> nat \<Rightarrow> int" where
  "clock_from t i = t + int i"

text \<open>A subprocess that answers every command with the same pair.\<close>

definition cli_reports :: "bool \<Rightarrow> string \<Rightarrow> cli_cmd \<Rightarrow> bool \<times> string" where
  "cli_reports succ outp cmd = (succ, outp)"

section \<open>The command-line clients\<close>

text \<open>
  How a run of a Typer application ends: \<^verbatim>\<open>typer.Exit(c)\<close> becomes the exit code \<open>c\<close>,
  any other exception that nothing catches ends the interpreter with code 1, and a
  command that returns ends it with code 0. The argument of \<^verbatim>\<open>typer.Exit\<close> is optional
  and defaults to 0.
\<close>

definition typer_Exit :: "int option \<Rightarrow> py_error" where
  "typer_Exit code = TyperExit (case code of None \<Rightarrow> 0 | Some c \<Rightarrow> c)"

fun exit_code :: "py_error + 'a \<Rightarrow> int" where
  "exit_code (Inr _) = 0"
| "exit_code (Inl (TyperExit c)) = c"
| "exit_code (Inl _) = 1"

subsection \<open>\<^verbatim>\<open>sep40/cli/cli.py\<close>\<close>

text \<open>
  \<^verbatim>\<open>abort\<close> prints the message in red and raises \<^verbatim>\<open>typer.Exit(1)\<close>. Printing is not
  modelled, so the message has no effect here; the messages below leave out the parts
  that the source formats from a status code or from an SDK object.
\<close>

definition abort :: "string \<Rightarrow> py_error + 'a" where
  "abort msg = Inl (typer_Exit (Some 1))"

text \<open>
  The answer to the request: \<open>json_body\<close> is what \<^verbatim>\<open>resp.json()\<close> decodes, \<open>None\<close> when the
  body is not JSON and the call raises.
\<close>

record http_response =
  status_code :: int
  text_body :: string
  json_body :: "string option"

definition perform_rpc_request :: "http_response \<Rightarrow> py_error + unit" where
  "perform_rpc_request resp =
     (if 299 < status_code resp
      then abort (''Failed to perform RPC request: response='' @ text_body resp)
      else case json_body resp of None \<Rightarrow> Inl JSONDecodeError | Some j \<Rightarrow> Inr ())"

datatype AssetType = stellar | other

text \<open>
  What a caller can pass as \<^verbatim>\<open>asset_type\<close>: a member of the enumeration or, since Python
  does not enforce the annotation, some other value. \<open>py_str\<close> is \<^verbatim>\<open>str\<close> as the
  f-string of the fallback branch applies it.
\<close>

datatype py_value = EnumMember AssetType | PyStr string | PyNone

fun py_str :: "py_value \<Rightarrow> string" where
  "py_str (EnumMember stellar) = ''AssetType.stellar''"
| "py_str (EnumMember other) = ''AssetType.other''"
| "py_str (PyStr s) = s"
| "py_str PyNone = ''None''"

datatype sc_val = ScAddress string | ScSymbol string | ScEnum string sc_val

text \<open>What \<^verbatim>\<open>build_asset_enum\<close> hands back: a contract value, or an exception object.\<close>

datatype py_object = ScVal sc_val | ExceptionObject py_error

text \<open>
  \<open>to_address\<close> and \<open>to_symbol\<close> are the SDK's constructors (\<^verbatim>\<open>scval.to_address\<close> and
  \<^verbatim>\<open>scval.to_symbol\<close> in the client, \<^verbatim>\<open>Address\<close> and \<^verbatim>\<open>Symbol\<close> in the example); they
  may reject their argument.
\<close>

definition to_enum :: "string \<Rightarrow> py_error + sc_val \<Rightarrow> py_error + py_object" where
  "to_enum tag v = (case v of Inl err \<Rightarrow> Inl err | Inr x \<Rightarrow> Inr (ScVal (ScEnum tag x)))"

definition build_asset_enum ::
  "(string \<Rightarrow> py_error + sc_val) \<Rightarrow> (string \<Rightarrow> py_error + sc_val) \<Rightarrow> py_value \<Rightarrow> string \<Rightarrow>
   py_error + py_object" where
  "build_asset_enum to_address to_symbol asset_type asset =
     (if asset_type = EnumMember stellar then to_enum ''Stellar'' (to_address asset)
      else if asset_type = EnumMember other then to_enum ''Other'' (to_symbol asset)
      else Inr (ExceptionObject (ValueError (''unexpected asset_type: '' @ py_str asset_type))))"

subsection \<open>\<^verbatim>\<open>sep40/examples/price_up_down/cli/cli.py\<close>\<close>

text \<open>The example's \<^verbatim>\<open>abort\<close> raises \<^verbatim>\<open>typer.Exit()\<close>, with no argument.\<close>

definition abort_example :: "string \<Rightarrow> py_error + 'a" where
  "abort_example msg = Inl (typer_Exit None)"

text \<open>The SDK's status enumerations and the part of a poll response the client reads.\<close>

datatype GetTransactionStatus = SUCCESS | NOT_FOUND | FAILED

datatype SendTransactionStatus = PENDING | DUPLICATE | TRY_AGAIN_LATER | ERROR

record get_transaction_data =
  tx_status :: GetTransactionStatus
  result_meta_xdr :: "string option"

text \<open>
  \<^verbatim>\<open>wait_tx\<close>: \<open>get_transaction i\<close> is the answer to the \<open>i\<close>-th poll and \<open>slept\<close> the seconds
  spent in \<^verbatim>\<open>time.sleep(3)\<close> so far. A loop that never leaves has the value \<open>None\<close>.
\<close>

partial_function (option) wait_tx ::
  "(nat \<Rightarrow> get_transaction_data) \<Rightarrow> nat \<Rightarrow> nat \<Rightarrow> (get_transaction_data \<times> nat) option" where
  "wait_tx get_transaction i slept =
     (let data = get_transaction i in
      if tx_status data \<noteq> NOT_FOUND then Some (data, slept)
      else wait_tx get_transaction (Suc i) (slept + 3))"

declare wait_tx.simps [code]

record send_transaction_data =
  send_status :: SendTransactionStatus
  hash :: string

definition send_tx ::
  "send_transaction_data \<Rightarrow> (nat \<Rightarrow> get_transaction_data) \<Rightarrow>
   (py_error + string \<times> get_transaction_data) option" where
  "send_tx sent get_transaction =
     (if send_status sent \<noteq> PENDING then Some (Inl (RuntimeError ''Failed to send transaction''))
      else case wait_tx get_transaction 0 0 of
             None \<Rightarrow> None
           | Some (data, slept) \<Rightarrow> Some (Inr (hash sent, data)))"

definition invoke_contract_function ::
  "send_transaction_data \<Rightarrow> (nat \<Rightarrow> get_transaction_data) \<Rightarrow>
   (py_error + string \<times> get_transaction_data) option" where
  "invoke_contract_function sent get_transaction =
     (case send_tx sent get_transaction of
        None \<Rightarrow> None
      | Some (Inl err) \<Rightarrow> Some (Inl err)
      | Some (Inr (tx_hash, tx_data)) \<Rightarrow>
          if tx_status tx_data \<noteq> SUCCESS then Some (abort_example ''Error'')
          else Some (Inr (tx_hash, tx_data)))"


text \<open>
  \<^verbatim>\<open>output_tx_data\<close>: a successful transaction has its result decoded and printed, any
  other is reported through \<^verbatim>\<open>abort\<close>. The assertion of \<^verbatim>\<open>parse_tx_result\<close> on the result
  is kept. \<open>decode_and_print\<close> stands for what follows it: the SDK's decoding of the XDR
  text, the second assertion and the printing branches with \<^verbatim>\<open>parse_sc_val\<close>, all of which
  work on SDK objects and may raise.
\<close>

definition output_tx_data ::
  "(string \<Rightarrow> py_error + unit) \<Rightarrow> get_transaction_data \<Rightarrow> py_error + unit" where
  "output_tx_data decode_and_print tx_data =
     (if tx_status tx_data = SUCCESS
      then (case result_meta_xdr tx_data of
              None \<Rightarrow> Inl AssertionError
            | Some xdr \<Rightarrow> decode_and_print xdr)
      else abort_example ''Error'')"

text \<open>
  \<^verbatim>\<open>invoke_and_output\<close>, the body of the command \<^verbatim>\<open>initialize\<close>. \<open>None\<close> stands for a
  run that never leaves \<^verbatim>\<open>wait_tx\<close>.
\<close>

definition invoke_and_output ::
  "(string \<Rightarrow> py_error + unit) \<Rightarrow> send_transaction_data \<Rightarrow> (nat \<Rightarrow> get_transaction_data) \<Rightarrow>
   (py_error + unit) option" where
  "invoke_and_output decode_and_print sent get_transaction =
     (case invoke_contract_function sent get_transaction of
        None \<Rightarrow> None
      | Some (Inl err) \<Rightarrow> Some (Inl err)
      | Some (Inr (tx_hash, tx_data)) \<Rightarrow> Some (output_tx_data decode_and_print tx_data))"

subsection \<open>Inputs on which the clients are run below\<close>

text \<open>
  Poll answers that are \<^verbatim>\<open>NOT_FOUND\<close> for the first \<open>n\<close> polls and \<open>st\<close> from then on, and SDK
  constructors that accept every argument.
\<close>

definition polls_settling_at :: "nat \<Rightarrow> GetTransactionStatus \<Rightarrow> nat \<Rightarrow> get_transaction_data" where
  "polls_settling_at n st i =
     \<lparr>tx_status = (if i < n then NOT_FOUND else st), result_meta_xdr = None\<rparr>"

definition accept_address :: "string \<Rightarrow> py_error + sc_val" where
  "accept_address a = Inr (ScAddress a)"

definition accept_symbol :: "string \<Rightarrow> py_error + sc_val" where
  "accept_symbol a = Inr (ScSymbol a)"

section \<open>The timestamp normalizer\<close>

text \<open>
  The exponent found by \<open>ilog2_quot\<close> stays below \<open>n\<close> when the quotient is below \<open>2 ^ n\<close>,
  so a quotient below \<open>2 ^ 44\<close> keeps at least nine binary places after the point.
\<close>

lemma ilog2_quot_less:
  assumes "0 < a" "0 < b" "a < b * 2 ^ n"
  shows "ilog2_quot a b < int n"
proof -
  define d where "d = bitlen a - bitlen b"
  have ba: "2 ^ nat (bitlen a - 1) \<le> a" using bitlen_bounds[OF assms(1)] by simp
  have bb: "b < 2 ^ nat (bitlen b)" using bitlen_bounds[OF assms(2)] by simp
  have pa: "1 \<le> bitlen a" using assms(1) bitlen_eq_zero_iff[of a] bitlen_nonneg[of a] by linarith
  have pb: "1 \<le> bitlen b" using assms(2) bitlen_eq_zero_iff[of b] bitlen_nonneg[of b] by linarith
  have "(2::int) ^ nat (bitlen a - 1) < 2 ^ nat (bitlen b) * 2 ^ n"
  proof -
    have "b * 2 ^ n < 2 ^ nat (bitlen b) * (2::int) ^ n"
      using bb by simp
    with ba assms(3) show ?thesis by linarith
  qed
  then have "(2::int) ^ nat (bitlen a - 1) < 2 ^ (nat (bitlen b) + n)"
    by (simp add: power_add)
  then have "nat (bitlen a - 1) < nat (bitlen b) + n"
    by (simp add: power_strict_increasing_iff)
  then have dle: "d \<le> int n" using pa pb by (simp add: d_def)
  show ?thesis
  proof (cases "0 \<le> d \<and> b * 2 ^ nat d \<le> a")
    case True
    then have "b * 2 ^ nat d < b * 2 ^ n" using assms(3) by linarith
    then have "(2::int) ^ nat d < 2 ^ n" using assms(2) by simp
    then have "nat d < n" by (simp add: power_strict_increasing_iff)
    then have "d < int n" using True by linarith
    moreover have "ilog2_quot a b = d" using True by (simp add: ilog2_quot_def d_def Let_def)
    ultimately show ?thesis by simp
  next
    case False
    then have "ilog2_quot a b \<le> d \<and> (0 \<le> d \<longrightarrow> ilog2_quot a b = d - 1)"
      by (auto simp add: ilog2_quot_def d_def Let_def)
    then show ?thesis using dle by (cases "0 \<le> d") auto
  qed
qed

lemma round_half_even_near:
  assumes "0 < d"
  shows "2 * d * round_half_even x d - d \<le> 2 * x \<and> 2 * x \<le> 2 * d * round_half_even x d + d"
proof -
  have x: "x = d * (x div d) + x mod d" by simp
  have r: "0 \<le> x mod d" "x mod d < d" using assms by simp_all
  define q where "q = x div d"
  define r where "r = x mod d"
  have x': "x = d * q + r" and r': "0 \<le> r" "r < d" using x r by (simp_all add: q_def r_def)
  have "round_half_even x d = (if d < 2 * r \<or> (2 * r = d \<and> odd q) then q + 1 else q)"
    by (simp add: round_half_even_def Let_def q_def r_def)
  then show ?thesis using x' r' by (auto simp: algebra_simps)
qed

lemma round_half_even_exact:
  assumes "0 < d"
  shows "round_half_even (d * c) d = c"
  using assms by (simp add: round_half_even_def Let_def)

lemma round_half_even_between:
  assumes d: "0 < d" "d < 2 * P" and r: "0 < r" "r < d"
  shows "c * P < round_half_even ((d * c + r) * P) d \<and> round_half_even ((d * c + r) * P) d < c * P + P"
proof -
  define m where "m = round_half_even ((d * c + r) * P) d"
  define k where "k = m - c * P"
  have P: "0 < P" using d by linarith
  from round_half_even_near[OF d(1), of "(d * c + r) * P"]
  have lo: "2 * d * m - d \<le> 2 * ((d * c + r) * P)" and hi: "2 * ((d * c + r) * P) \<le> 2 * d * m + d"
    by (simp_all add: m_def)
  have m: "m = k + c * P" by (simp add: k_def)
  have lo': "2 * d * k - d \<le> 2 * (r * P)" using lo unfolding m by (simp add: algebra_simps)
  have hi': "2 * (r * P) \<le> 2 * d * k + d" using hi unfolding m by (simp add: algebra_simps)
  have "1 * P \<le> r * P" using r(1) P by (intro mult_right_mono) auto
  then have "d < 2 * (r * P)" using d(2) by linarith
  then have "0 < 2 * d * k" using hi' by linarith
  then have k0: "0 < k" using d(1) by (simp add: zero_less_mult_iff)
  have "r * P \<le> (d - 1) * P" using r(2) P by (intro mult_right_mono) auto
  then have "2 * (r * P) + d < 2 * d * P" using d(2) by (simp add: algebra_simps)
  then have "2 * d * k < 2 * d * P" using lo' by linarith
  then have "d * k < d * P" by simp
  then have "k < P" using d(1) by (simp add: mult_less_cancel_left_pos)
  with k0 show ?thesis unfolding m_def[symmetric] m by simp
qed


lemma nearest_double_600:
  assumes "0 < a" "a < 600 * 2 ^ 44"
  shows "\<exists>k\<ge>9. nearest_double a 600 = (round_half_even (a * 2 ^ k) 600, - int k)"
proof -
  define e where "e = max (ilog2_quot a 600 - 52) (- 1074)"
  have "ilog2_quot a 600 < int 44"
    using assms by (intro ilog2_quot_less) simp_all
  then have e: "e \<le> - 9" by (simp add: e_def)
  then have "nearest_double a 600 = (round_half_even (a * 2 ^ nat (- e)) 600, e)"
    using assms(1) by (simp add: nearest_double_def Let_def e_def[symmetric])
  moreover have "9 \<le> nat (- e)" "e = - int (nat (- e))" using e by simp_all
  ultimately show ?thesis by metis
qed

lemma div_between:
  fixes m c P :: int
  assumes "c * P < m" "m < c * P + P"
  shows "m div P = c" "- ((- m) div P) = c + 1"
proof -
  have P: "0 < P" using assms by linarith
  show "m div P = c"
    using assms P by (intro int_div_pos_eq[where r = "m - c * P"]) (simp_all add: algebra_simps)
  have "(- m) div P = - c - 1"
    using assms P by (intro int_div_pos_eq[where r = "(c + 1) * P - m"]) (simp_all add: algebra_simps)
  then show "- ((- m) div P) = c + 1" by simp
qed

lemma math_ceil_quotient_600:
  assumes k: "9 \<le> (k::nat)" and a: "0 \<le> a"
  defines "m \<equiv> round_half_even (a * 2 ^ k) 600"
  shows "math_ceil (m, - int k) = - ((- a) div 600)"
    and "math_ceil (- m, - int k) = - (a div 600)"
proof -
  define P :: int where "P = 2 ^ k"
  define c where "c = a div 600"
  define r where "r = a mod 600"
  have P: "0 < P" by (simp add: P_def)
  have "(2::int) ^ 9 \<le> 2 ^ k" using k by (intro power_increasing) simp_all
  then have P2: "600 < 2 * P" by (simp add: P_def)
  have acr: "a = 600 * c + r" and r: "0 \<le> r" "r < 600" by (simp_all add: c_def r_def)
  have mc: "math_ceil (x, - int k) = - ((- x) div P)" for x
    using k by (simp add: math_ceil_def P_def)
  have "math_ceil (m, - int k) = - ((- a) div 600) \<and> math_ceil (- m, - int k) = - (a div 600)"
  proof (cases "r = 0")
    case True
    have "m = round_half_even (600 * (c * P)) 600"
      by (simp add: m_def acr True P_def algebra_simps)
    then have m: "m = c * P" by (simp add: round_half_even_exact)
    have "(- a) div 600 = - c" using True acr by simp
    moreover have "(- (c * P)) div P = - c"
      using P nonzero_mult_div_cancel_right[of P "- c"] by simp
    ultimately have "math_ceil (m, - int k) = - ((- a) div 600)" by (simp add: mc m)
    moreover have "math_ceil (- m, - int k) = - (a div 600)" using P by (simp add: mc m c_def)
    ultimately show ?thesis by simp
  next
    case False
    then have r0: "0 < r" using r by simp
    have "m = round_half_even ((600 * c + r) * P) 600" by (simp add: m_def acr P_def)
    with round_half_even_between[of 600 P r c] P2 r0 r(2)
    have btw: "c * P < m" "m < c * P + P" by simp_all
    have "(- a) div 600 = - c - 1"
      using r0 r(2) by (intro int_div_pos_eq[where r = "600 - r"]) (simp_all add: acr)
    then have "math_ceil (m, - int k) = - ((- a) div 600)" using div_between(2)[OF btw] by (simp add: mc)
    moreover have "math_ceil (- m, - int k) = - (a div 600)" using div_between(1)[OF btw] by (simp add: mc c_def)
    ultimately show ?thesis by simp
  qed
  then show "math_ceil (m, - int k) = - ((- a) div 600)" "math_ceil (- m, - int k) = - (a div 600)"
    by simp_all
qed

lemma normalize_timestamp_of_nearest:
  assumes "nearest_double \<bar>t\<bar> 600 = (m, - int k)" "0 < k"
  shows "normalize_timestamp t 600 = Inr (math_ceil (if t < 0 then - m else m, - int k) * 600)"
  using assms by (simp add: normalize_timestamp_def int_truediv_def)

lemma normalize_timestamp_600_inner:
  assumes "\<bar>t\<bar> < 600 * 2 ^ 44"
  shows "normalize_timestamp t 600 = Inr (- ((- t) div 600) * 600)"
proof (cases "t = 0")
  case True
  then show ?thesis
    by (simp add: normalize_timestamp_def int_truediv_def nearest_double_def math_ceil_def)
next
  case False
  then have a: "0 < \<bar>t\<bar>" by simp
  from nearest_double_600[OF a assms] obtain k where k: "9 \<le> k"
    and nd: "nearest_double \<bar>t\<bar> 600 = (round_half_even (\<bar>t\<bar> * 2 ^ k) 600, - int k)" by blast
  have k0: "0 < k" using k by simp
  note nt = normalize_timestamp_of_nearest[OF nd k0]
  show ?thesis
  proof (cases "t < 0")
    case True
    have "math_ceil (- round_half_even (\<bar>t\<bar> * 2 ^ k) 600, - int k) = - (\<bar>t\<bar> div 600)"
      using math_ceil_quotient_600(2)[OF k, of "\<bar>t\<bar>"] by simp
    moreover have "\<bar>t\<bar> = - t" using True by simp
    ultimately show ?thesis using nt True by simp
  next
    case False
    have "math_ceil (round_half_even (\<bar>t\<bar> * 2 ^ k) 600, - int k) = - ((- \<bar>t\<bar>) div 600)"
      using math_ceil_quotient_600(1)[OF k, of "\<bar>t\<bar>"] by simp
    moreover have "\<bar>t\<bar> = t" using False by simp
    ultimately show ?thesis using nt False by simp
  qed
qed

lemma normalize_timestamp_600_edge:
  "normalize_timestamp (600 * 2 ^ 44) 600 = Inr (600 * 2 ^ 44)"
  "normalize_timestamp (- (600 * 2 ^ 44)) 600 = Inr (- (600 * 2 ^ 44))"
  by code_simp+

lemma normalize_timestamp_600:
  assumes "\<bar>t\<bar> \<le> 600 * 2 ^ 44"
  shows "normalize_timestamp t 600 = Inr (- ((- t) div 600) * 600)"
proof (cases "\<bar>t\<bar> < 600 * 2 ^ 44")
  case True
  then show ?thesis by (rule normalize_timestamp_600_inner)
next
  case False
  then have "t = 600 * 2 ^ 44 \<or> t = - (600 * 2 ^ 44)" using assms by linarith
  then show ?thesis using normalize_timestamp_600_edge by auto
qed

text \<open>
  C1, as amended. For every integer \<open>t\<close> with \<open>\<bar>t\<bar> \<le> 600 * 2 ^ 44\<close> (which holds of every
  unix time a \<^verbatim>\<open>datetime\<close> can give), \<open>normalize_timestamp t 600\<close> returns the smallest
  multiple of 600 that is at least \<open>t\<close>: the result is a multiple of 600, it is not below
  \<open>t\<close>, it exceeds \<open>t\<close> by less than 600, it is \<open>t\<close> itself when \<open>t\<close> is a multiple of 600, and
  no multiple of 600 from \<open>t\<close> on is smaller.
\<close>

theorem C1_normalize_timestamp_smallest_multiple:
  assumes "\<bar>t\<bar> \<le> 600 * 2 ^ 44"
  shows "\<exists>res. normalize_timestamp t RESOLUTION = Inr res
           \<and> res mod RESOLUTION = 0 \<and> t \<le> res \<and> res - t < RESOLUTION
           \<and> (t mod RESOLUTION = 0 \<longrightarrow> res = t)
           \<and> (\<forall>m. m mod RESOLUTION = 0 \<and> t \<le> m \<longrightarrow> res \<le> m)"
proof -
  define res where "res = - ((- t) div 600) * 600"
  define r where "r = (- t) mod 600"
  have eq: "normalize_timestamp t RESOLUTION = Inr res"
    using normalize_timestamp_600[OF assms] by (simp add: RESOLUTION_def res_def)
  have "(- t) div 600 * 600 + r = - t" unfolding r_def by (rule div_mult_mod_eq)
  then have res: "res = t + r" by (simp add: res_def)
  have r: "0 \<le> r" "r < 600" by (simp_all add: r_def)
  have m600: "res mod 600 = 0" by (simp add: res_def)
  have aligned: "res = t" if "t mod 600 = 0"
  proof -
    from that have "(600::int) dvd - t" by (simp add: mod_eq_0_iff_dvd)
    then have "r = 0" by (simp add: r_def)
    with res show ?thesis by simp
  qed
  have least: "res \<le> m" if m: "m mod 600 = 0" "t \<le> m" for m
  proof (rule ccontr)
    assume "\<not> res \<le> m"
    then have pos: "0 < res - m" by simp
    have "(600::int) dvd res - m" using m600 m(1) by (simp add: mod_eq_0_iff_dvd)
    then have "600 \<le> res - m" using pos by (rule zdvd_imp_le)
    with res r m(2) show False by linarith
  qed
  show ?thesis
    using eq m600 res r aligned least by (auto simp add: RESOLUTION_def)
qed

theorem C1_normalize_timestamp_witness:
  "\<bar>1700000001\<bar> \<le> (600 * 2 ^ 44 :: int)
   \<and> normalize_timestamp 1700000001 RESOLUTION = Inr 1700000400"
proof -
  have h: "\<bar>1700000001\<bar> \<le> (600 * 2 ^ 44 :: int)" by simp
  from C1_normalize_timestamp_smallest_multiple[OF h] obtain res where
    res: "normalize_timestamp 1700000001 RESOLUTION = Inr res"
      "res mod 600 = 0" "1700000001 \<le> res" "res - 1700000001 < 600"
    unfolding RESOLUTION_def by (elim exE conjE)
  define q where "q = res div 600"
  have rq: "res = 600 * q" using res(2) unfolding q_def by (simp add: mod_eq_0_iff_dvd)
  have "\<not> q \<le> 2833333" using res(3) unfolding rq by linarith
  moreover have "\<not> 2833335 \<le> q" using res(4) unfolding rq by linarith
  ultimately have "q = 2833334" by linarith
  with rq res(1) h show ?thesis by simp
qed


text \<open>
  C1 as stated, for every integer, fails: at \<open>t = 600 * 2 ^ 44 + 1\<close> the quotient
  \<open>2 ^ 44 + 1 / 600\<close> rounds down to the double \<open>2 ^ 44\<close>, and the result
  \<open>600 * 2 ^ 44\<close> is below \<open>t\<close>.
\<close>

theorem C1_normalize_timestamp_counterexample:
  "normalize_timestamp 10555311626649601 RESOLUTION = Inr 10555311626649600
   \<and> \<not> (10555311626649601 :: int) \<le> 10555311626649600"
  by (simp add: RESOLUTION_def normalize_timestamp_def int_truediv_def nearest_double_def
      ilog2_quot_def round_half_even_def math_ceil_def compute_bitlen)


section \<open>The read loop of the batch feeder\<close>

text \<open>
  For a clock reading in the range of C1 the test \<^verbatim>\<open>normalized_timestamp <= current_timestamp\<close>
  holds exactly when the reading is a multiple of 600, and then both are equal.
\<close>

lemma normalize_timestamp_gate:
  assumes "\<bar>c\<bar> \<le> 600 * 2 ^ 44"
  shows "\<exists>nt. normalize_timestamp c RESOLUTION = Inr nt
            \<and> (nt \<le> c \<longleftrightarrow> c mod 600 = 0) \<and> (c mod 600 = 0 \<longrightarrow> nt = c)"
proof -
  define r where "r = (- c) mod 600"
  define nt where "nt = - ((- c) div 600) * 600"
  have eq: "normalize_timestamp c RESOLUTION = Inr nt"
    using normalize_timestamp_600[OF assms] by (simp add: RESOLUTION_def nt_def)
  have "(- c) div 600 * 600 + r = - c" unfolding r_def by (rule div_mult_mod_eq)
  then have nt: "nt = c + r" by (simp add: nt_def)
  have r: "0 \<le> r" by (simp add: r_def)
  have "r = 0 \<longleftrightarrow> (600::int) dvd - c" by (simp add: r_def mod_eq_0_iff_dvd)
  then have r0: "r = 0 \<longleftrightarrow> c mod 600 = 0" by (simp add: mod_eq_0_iff_dvd)
  show ?thesis using eq nt r r0 by auto
qed

lemma truncate_with_normalized_timestamp [simp]:
  "price_row.truncate (with_normalized_timestamp r nt) = r"
  by (simp add: price_row.truncate_def with_normalized_timestamp_def)

lemma with_normalized_timestamp_sel [simp]:
  "normalized_timestamp (with_normalized_timestamp r nt) = nt"
  "source (with_normalized_timestamp r nt) = source r"
  "symbol (with_normalized_timestamp r nt) = symbol r"
  "price (with_normalized_timestamp r nt) = price r"
  "buy_asset (with_normalized_timestamp r nt) = buy_asset r"
  "sell_asset (with_normalized_timestamp r nt) = sell_asset r"
  by (simp_all add: with_normalized_timestamp_def)

lemma symbols_hold_empty [simp]: "symbols_hold Map.empty = {}"
  by (simp add: symbols_hold_def)

lemma symbols_hold_new_key:
  "symbols s = None \<Longrightarrow> symbols_hold (symbols(s \<mapsto> [])) = symbols_hold symbols"
  by (auto simp add: symbols_hold_def split: if_splits)

lemma symbols_hold_append:
  "symbols s = Some l \<Longrightarrow> symbols_hold (symbols(s \<mapsto> l @ [y])) = insert (s, y) (symbols_hold symbols)"
  by (auto simp add: symbols_hold_def split: if_splits)


lemma read_prices_loop_step:
  assumes c: "\<bar>now i\<bar> \<le> 600 * 2 ^ 44"
  shows "\<exists>symbols'. symbols_hold symbols' =
            (if (source r, symbol r) \<notin> symbols_hold symbols \<and> now i mod 600 = 0
             then insert (source r, symbol r) (symbols_hold symbols) else symbols_hold symbols)
          \<and> read_prices_loop now i (r # rest) symbols ps =
              read_prices_loop now (Suc i) rest symbols'
                (if (source r, symbol r) \<notin> symbols_hold symbols \<and> now i mod 600 = 0
                 then ps @ [with_normalized_timestamp r (now i)] else ps)"
proof -
  let ?keep = "(source r, symbol r) \<notin> symbols_hold symbols \<and> now i mod 600 = 0"
  from normalize_timestamp_gate[OF c] obtain nt where
    nt: "normalize_timestamp (now i) RESOLUTION = Inr nt"
    and gate: "nt \<le> now i \<longleftrightarrow> now i mod 600 = 0"
    and same: "now i mod 600 = 0 \<longrightarrow> nt = now i" by (elim exE conjE)
  show ?thesis
  proof (cases "symbols (source r)")
    case None
    then have nin: "(source r, symbol r) \<notin> symbols_hold symbols"
      by (simp add: symbols_hold_def)
    have u: "read_prices_loop now i (r # rest) symbols ps =
      (if nt \<le> now i
       then read_prices_loop now (Suc i) rest (symbols(source r \<mapsto> [symbol r]))
              (ps @ [with_normalized_timestamp r nt])
       else read_prices_loop now (Suc i) rest (symbols(source r \<mapsto> [])) ps)"
      using None nt by (simp add: Let_def)
    have new: "symbols_hold (symbols(source r \<mapsto> [])) = symbols_hold symbols"
      using symbols_hold_new_key[of symbols "source r"] None by simp
    show ?thesis
    proof (cases "now i mod 600 = 0")
      case True
      then have k: ?keep using nin by simp
      have eq: "nt = now i" "nt \<le> now i" using True gate same by simp_all
      have h: "symbols_hold (symbols(source r \<mapsto> [symbol r]))
          = insert (source r, symbol r) (symbols_hold symbols)"
        using symbols_hold_append[of "symbols(source r \<mapsto> [])" "source r" "[]" "symbol r"] new
        by simp
      have l: "read_prices_loop now i (r # rest) symbols ps =
          read_prices_loop now (Suc i) rest (symbols(source r \<mapsto> [symbol r]))
            (ps @ [with_normalized_timestamp r (now i)])"
        using u eq by (simp del: read_prices_loop.simps)
      show ?thesis
        unfolding if_P[OF k] by (intro exI[of _ "symbols(source r \<mapsto> [symbol r])"] conjI h l)
    next
      case False
      then have k: "\<not> ?keep" by simp
      have "\<not> nt \<le> now i" using False gate by simp
      then have l: "read_prices_loop now i (r # rest) symbols ps =
          read_prices_loop now (Suc i) rest (symbols(source r \<mapsto> [])) ps"
        using u by (simp del: read_prices_loop.simps)
      show ?thesis
        unfolding if_not_P[OF k] by (intro exI[of _ "symbols(source r \<mapsto> [])"] conjI new l)
    qed
  next
    case (Some seen)
    have mem: "symbol r \<in> set seen \<longleftrightarrow> (source r, symbol r) \<in> symbols_hold symbols"
      using Some by (simp add: symbols_hold_def)
    have u: "read_prices_loop now i (r # rest) symbols ps =
      (if symbol r \<in> set seen then read_prices_loop now (Suc i) rest symbols ps
       else if nt \<le> now i
       then read_prices_loop now (Suc i) rest (symbols(source r \<mapsto> seen @ [symbol r]))
              (ps @ [with_normalized_timestamp r nt])
       else read_prices_loop now (Suc i) rest symbols ps)"
      using Some nt by (simp add: Let_def)
    show ?thesis
    proof (cases ?keep)
      case True
      then have eq: "nt = now i" "nt \<le> now i" "symbol r \<notin> set seen"
        using gate same mem by simp_all
      have h: "symbols_hold (symbols(source r \<mapsto> seen @ [symbol r]))
          = insert (source r, symbol r) (symbols_hold symbols)"
        using symbols_hold_append[of symbols "source r" seen "symbol r"] Some by simp
      have l: "read_prices_loop now i (r # rest) symbols ps =
          read_prices_loop now (Suc i) rest (symbols(source r \<mapsto> seen @ [symbol r]))
            (ps @ [with_normalized_timestamp r (now i)])"
        using u eq by (simp del: read_prices_loop.simps)
      show ?thesis
        unfolding if_P[OF True] by (intro exI[of _ "symbols(source r \<mapsto> seen @ [symbol r])"] conjI h l)
    next
      case False
      then have "symbol r \<in> set seen \<or> \<not> nt \<le> now i" using gate mem by auto
      then have l: "read_prices_loop now i (r # rest) symbols ps =
          read_prices_loop now (Suc i) rest symbols ps"
        using u by (auto simp del: read_prices_loop.simps)
      show ?thesis
        unfolding if_not_P[OF False] by (intro exI[of _ symbols] conjI refl l)
    qed
  qed
qed

lemma read_prices_loop_first_occurrences:
  assumes "\<forall>j<length rows. \<bar>now (i + j)\<bar> \<le> 600 * 2 ^ 44" "set seen = symbols_hold symbols"
  shows "\<exists>kept. read_prices_loop now i rows symbols ps = Inr (ps @ kept)
           \<and> map price_row.truncate kept = first_occurrences seen (aligned_rows now i rows)"
  using assms
proof (induction rows arbitrary: i symbols ps seen)
  case Nil
  then show ?case by simp
next
  case (Cons r rest)
  have c: "\<bar>now i\<bar> \<le> 600 * 2 ^ 44" using Cons.prems(1)[rule_format, of 0] by simp
  have "\<bar>now (Suc i + j)\<bar> \<le> 600 * 2 ^ 44" if "j < length rest" for j
    using Cons.prems(1)[rule_format, of "Suc j"] that by simp
  then have tl: "\<forall>j<length rest. \<bar>now (Suc i + j)\<bar> \<le> 600 * 2 ^ 44" by simp
  let ?keep = "(source r, symbol r) \<notin> symbols_hold symbols \<and> now i mod 600 = 0"
  from read_prices_loop_step[where now = now and i = i and r = r and symbols = symbols and rest = rest and ps = ps, OF c]
  obtain symbols' where
    s': "symbols_hold symbols' = (if ?keep then insert (source r, symbol r) (symbols_hold symbols) else symbols_hold symbols)"
    and step: "read_prices_loop now i (r # rest) symbols ps =
              read_prices_loop now (Suc i) rest symbols'
                (if ?keep then ps @ [with_normalized_timestamp r (now i)] else ps)"
    by (elim exE conjE)
  show ?case
  proof (cases ?keep)
    case True
    note s'T = s'[unfolded if_P[OF True]] and stepT = step[unfolded if_P[OF True]]
    have inv: "set ((source r, symbol r) # seen) = symbols_hold symbols'"
      using s'T Cons.prems(2) by simp
    from Cons.IH[OF tl inv, of "ps @ [with_normalized_timestamp r (now i)]"] obtain kept where
      k: "read_prices_loop now (Suc i) rest symbols' (ps @ [with_normalized_timestamp r (now i)])
           = Inr ((ps @ [with_normalized_timestamp r (now i)]) @ kept)"
         "map price_row.truncate kept = first_occurrences ((source r, symbol r) # seen) (aligned_rows now (Suc i) rest)"
      by (elim exE conjE)
    have notin: "(source r, symbol r) \<notin> set seen" and al: "now i mod 600 = 0"
      using True Cons.prems(2) by simp_all
    have l: "read_prices_loop now i (r # rest) symbols ps
            = Inr (ps @ with_normalized_timestamp r (now i) # kept)"
      using stepT k(1) by simp
    have m: "map price_row.truncate (with_normalized_timestamp r (now i) # kept)
            = first_occurrences seen (aligned_rows now i (r # rest))"
      using k(2) notin al by simp
    show ?thesis
      by (intro exI[of _ "with_normalized_timestamp r (now i) # kept"] conjI l m)
  next
    case False
    note s'F = s'[unfolded if_not_P[OF False]] and stepF = step[unfolded if_not_P[OF False]]
    have inv: "set seen = symbols_hold symbols'" using s'F Cons.prems(2) by simp
    from Cons.IH[OF tl inv, of ps] obtain kept where
      k: "read_prices_loop now (Suc i) rest symbols' ps = Inr (ps @ kept)"
         "map price_row.truncate kept = first_occurrences seen (aligned_rows now (Suc i) rest)"
      by (elim exE conjE)
    have "(source r, symbol r) \<in> set seen \<or> now i mod 600 \<noteq> 0"
      using False Cons.prems(2) by simp
    then have m: "map price_row.truncate kept = first_occurrences seen (aligned_rows now i (r # rest))"
      using k(2) by auto
    have l: "read_prices_loop now i (r # rest) symbols ps = Inr (ps @ kept)"
      using stepF k(1) by simp
    show ?thesis
      by (intro exI[of _ kept] conjI l m)
  qed
qed

lemma kept_from_head:
  "now i mod 600 = 0 \<Longrightarrow> kept_from now i (r # rest) (with_normalized_timestamp r (now i))"
  unfolding kept_from_def by (intro exI[of _ 0]) simp

lemma kept_from_tail:
  assumes "kept_from now (Suc i) rest p"
  shows "kept_from now i (r # rest) p"
proof -
  from assms obtain j where j: "j < length rest" "price_row.truncate p = rest ! j"
      "now (Suc i + j) mod 600 = 0" "normalized_timestamp p = now (Suc i + j)"
    unfolding kept_from_def by (elim exE conjE)
  show ?thesis
    unfolding kept_from_def using j by (intro exI[of _ "Suc j"]) simp
qed

lemma read_prices_loop_kept:
  assumes "\<forall>j<length rows. \<bar>now (i + j)\<bar> \<le> 600 * 2 ^ 44"
  shows "\<exists>kept. read_prices_loop now i rows symbols ps = Inr (ps @ kept)
           \<and> (\<forall>p\<in>set kept. kept_from now i rows p)"
  using assms
proof (induction rows arbitrary: i symbols ps)
  case Nil
  then show ?case by simp
next
  case (Cons r rest)
  have c: "\<bar>now i\<bar> \<le> 600 * 2 ^ 44" using Cons.prems[rule_format, of 0] by simp
  have "\<bar>now (Suc i + j)\<bar> \<le> 600 * 2 ^ 44" if "j < length rest" for j
    using Cons.prems[rule_format, of "Suc j"] that by simp
  then have tl: "\<forall>j<length rest. \<bar>now (Suc i + j)\<bar> \<le> 600 * 2 ^ 44" by simp
  let ?keep = "(source r, symbol r) \<notin> symbols_hold symbols \<and> now i mod 600 = 0"
  let ?ps' = "if ?keep then ps @ [with_normalized_timestamp r (now i)] else ps"
  from read_prices_loop_step[where now = now and i = i and r = r and symbols = symbols and rest = rest and ps = ps, OF c]
  obtain symbols' where
    step: "read_prices_loop now i (r # rest) symbols ps = read_prices_loop now (Suc i) rest symbols' ?ps'"
    by (elim exE conjE)
  from Cons.IH[OF tl, of symbols' ?ps'] obtain kept where
    k: "read_prices_loop now (Suc i) rest symbols' ?ps' = Inr (?ps' @ kept)"
    and kp: "\<forall>p\<in>set kept. kept_from now (Suc i) rest p"
    by (elim exE conjE)
  have tl: "\<forall>p\<in>set kept. kept_from now i (r # rest) p"
    using kp kept_from_tail by (intro ballI) simp
  show ?case
  proof (cases ?keep)
    case True
    then have "kept_from now i (r # rest) (with_normalized_timestamp r (now i))"
      by (intro kept_from_head) simp
    then have all: "\<forall>p\<in>set (with_normalized_timestamp r (now i) # kept). kept_from now i (r # rest) p"
      using tl by simp
    have l: "read_prices_loop now i (r # rest) symbols ps
            = Inr (ps @ with_normalized_timestamp r (now i) # kept)"
      using step k unfolding if_P[OF True] by simp
    show ?thesis
      by (intro exI[of _ "with_normalized_timestamp r (now i) # kept"] conjI l all)
  next
    case False
    have l: "read_prices_loop now i (r # rest) symbols ps = Inr (ps @ kept)"
      using step k unfolding if_not_P[OF False] by simp
    show ?thesis
      by (intro exI[of _ kept] conjI l tl)
  qed
qed

section \<open>Grouping, submission and marking\<close>

lemma pairs_of_Nil [simp]: "pairs_of [] = {}"
  by (simp add: pairs_of_def)

lemma pairs_of_Cons: "pairs_of ((k, l) # rest) = {(k, y) | y. y \<in> set l} \<union> pairs_of rest"
  by (auto simp add: pairs_of_def)

lemma pairs_of_setdefault_append:
  "pairs_of (setdefault_append source_symbols k v) = insert (k, v) (pairs_of source_symbols)"
proof (induction source_symbols k v rule: setdefault_append.induct)
  case (1 k v)
  then show ?case by (auto simp add: pairs_of_def)
next
  case (2 k' vs rest k v)
  then show ?case by (auto simp add: pairs_of_Cons)
qed

lemma group_prices_supported:
  assumes "\<forall>p\<in>set ps. sell_asset p = ''XLM'' \<or> sell_asset p = ''USD''"
  shows "\<exists>ss'. group_prices ps xlm usd ss =
           Inr (xlm @ map parse_price (filter (\<lambda>p. sell_asset p = ''XLM'') ps),
                usd @ map parse_price (filter (\<lambda>p. sell_asset p = ''USD'') ps), ss')
         \<and> pairs_of ss' = pairs_of ss \<union> (\<lambda>p. (source p, symbol p)) ` set ps"
  using assms
proof (induction ps arbitrary: xlm usd ss)
  case Nil
  then show ?case by simp
next
  case (Cons p rest)
  let ?ss1 = "setdefault_append ss (source p) (symbol p)"
  have rest: "\<forall>q\<in>set rest. sell_asset q = ''XLM'' \<or> sell_asset q = ''USD''"
    using Cons.prems by simp
  have p: "sell_asset p = ''XLM'' \<or> sell_asset p = ''USD''" using Cons.prems by simp
  show ?case
  proof (cases "sell_asset p = ''XLM''")
    case True
    from Cons.IH[OF rest, of "xlm @ [parse_price p]" usd ?ss1] obtain ss' where
      g: "group_prices rest (xlm @ [parse_price p]) usd ?ss1 =
           Inr ((xlm @ [parse_price p]) @ map parse_price (filter (\<lambda>p. sell_asset p = ''XLM'') rest),
                usd @ map parse_price (filter (\<lambda>p. sell_asset p = ''USD'') rest), ss')"
      and pr: "pairs_of ss' = pairs_of ?ss1 \<union> (\<lambda>p. (source p, symbol p)) ` set rest"
      by (elim exE conjE)
    have l: "group_prices (p # rest) xlm usd ss =
           Inr (xlm @ map parse_price (filter (\<lambda>p. sell_asset p = ''XLM'') (p # rest)),
                usd @ map parse_price (filter (\<lambda>p. sell_asset p = ''USD'') (p # rest)), ss')"
      using True g by (simp add: Let_def)
    have m: "pairs_of ss' = pairs_of ss \<union> (\<lambda>p. (source p, symbol p)) ` set (p # rest)"
      using pr by (simp add: pairs_of_setdefault_append)
    show ?thesis by (intro exI[of _ ss'] conjI l m)
  next
    case False
    then have usd: "sell_asset p = ''USD''" using p by simp
    from Cons.IH[OF rest, of xlm "usd @ [parse_price p]" ?ss1] obtain ss' where
      g: "group_prices rest xlm (usd @ [parse_price p]) ?ss1 =
           Inr (xlm @ map parse_price (filter (\<lambda>p. sell_asset p = ''XLM'') rest),
                (usd @ [parse_price p]) @ map parse_price (filter (\<lambda>p. sell_asset p = ''USD'') rest), ss')"
      and pr: "pairs_of ss' = pairs_of ?ss1 \<union> (\<lambda>p. (source p, symbol p)) ` set rest"
      by (elim exE conjE)
    have l: "group_prices (p # rest) xlm usd ss =
           Inr (xlm @ map parse_price (filter (\<lambda>p. sell_asset p = ''XLM'') (p # rest)),
                usd @ map parse_price (filter (\<lambda>p. sell_asset p = ''USD'') (p # rest)), ss')"
      using usd g by (simp add: Let_def)
    have m: "pairs_of ss' = pairs_of ss \<union> (\<lambda>p. (source p, symbol p)) ` set (p # rest)"
      using pr by (simp add: pairs_of_setdefault_append)
    show ?thesis by (intro exI[of _ ss'] conjI l m)
  qed
qed

lemma group_prices_Inr_supported:
  "group_prices ps xlm usd ss = Inr res \<Longrightarrow>
     \<forall>p\<in>set ps. sell_asset p = ''XLM'' \<or> sell_asset p = ''USD''"
  by (induction ps arbitrary: xlm usd ss) (auto simp add: Let_def split: if_splits)

lemma group_prices_unsupported:
  assumes "find (\<lambda>p. sell_asset p \<noteq> ''XLM'' \<and> sell_asset p \<noteq> ''USD'') ps = Some b"
  shows "group_prices ps xlm usd ss = Inl (ValueError (''Unexpected price sell_asset: '' @ sell_asset b))"
  using assms
  by (induction ps arbitrary: xlm usd ss) (auto simp add: Let_def split: if_splits)

lemma prices_submit_group [simp]: "prices (submit_group run_cli contract grp d) = prices d"
  by (simp add: submit_group_def log_result_to_db_def Let_def split: prod.splits)

lemma mark_row_twice:
  "mark_row B (mark_row A r) = mark_row (A \<union> B) r"
  by (simp add: mark_row_def)

lemma prices_mark_symbols:
  "prices (mark_symbols_as_added_to_blockchain k l d) = map (mark_row {(k, y) | y. y \<in> set l}) (prices d)"
  by (simp add: mark_symbols_as_added_to_blockchain_def mark_row_def)

lemma prices_fold_mark:
  "prices (fold (\<lambda>(src, symbols). mark_symbols_as_added_to_blockchain src symbols) ss d)
     = map (mark_row (pairs_of ss)) (prices d)"
proof (induction ss arbitrary: d)
  case Nil
  then show ?case by (simp add: mark_row_def)
next
  case (Cons a ss)
  obtain k l where a: "a = (k, l)" by (cases a)
  show ?case
    by (simp add: a Cons.IH prices_mark_symbols pairs_of_Cons mark_row_twice o_def)
qed

lemma prices_add_prices_to_blockchain:
  assumes "add_prices_to_blockchain run_cli ps d = Inr d'"
  shows "prices d' = map (mark_row ((\<lambda>p. (source p, symbol p)) ` set ps)) (prices d)"
proof -
  from assms obtain res where res: "group_prices ps [] [] [] = Inr res"
    by (auto simp add: add_prices_to_blockchain_def split: sum.splits)
  from group_prices_supported[OF group_prices_Inr_supported[OF res], of "[]" "[]" "[]"]
  obtain ss' where g: "group_prices ps [] [] [] =
           Inr ([] @ map parse_price (filter (\<lambda>p. sell_asset p = ''XLM'') ps),
                [] @ map parse_price (filter (\<lambda>p. sell_asset p = ''USD'') ps), ss')"
    and pr: "pairs_of ss' = pairs_of [] \<union> (\<lambda>p. (source p, symbol p)) ` set ps"
    by (elim exE conjE)
  from assms g have "d' = fold (\<lambda>(src, symbols). mark_symbols_as_added_to_blockchain src symbols) ss'
                 (submit_group run_cli TESTNET_CONTRACT_USD (map parse_price (filter (\<lambda>p. sell_asset p = ''USD'') ps))
                    (submit_group run_cli TESTNET_CONTRACT_XLM (map parse_price (filter (\<lambda>p. sell_asset p = ''XLM'') ps)) d))"
    by (simp add: add_prices_to_blockchain_def)
  then show ?thesis using pr by (simp add: prices_fold_mark)
qed

section \<open>Further facts about the loop, and the example inputs\<close>

lemma normalize_timestamp_examples:
  "normalize_timestamp 1200 RESOLUTION = Inr 1200"
  "normalize_timestamp 1199 RESOLUTION = Inr 1200"
  "normalize_timestamp 1234 RESOLUTION = Inr 1800"
  by (simp_all add: RESOLUTION_def normalize_timestamp_600)

lemma select_example_db:
  "select_prices (prices example_db) = [price_row.truncate example_row]"
  by (simp add: select_prices_def example_db_def example_row_def unsent_def)

lemma select_two_quotes_db:
  "select_prices (prices two_quotes_db) = [first_quote, second_quote]"
  by (simp add: select_prices_def two_quotes_db_def stored_def unsent_def price_row.truncate_def
      first_quote_def second_quote_def)

lemma aligned_rows_none:
  "\<forall>j<length rows. now (i + j) mod 600 \<noteq> 0 \<Longrightarrow> aligned_rows now i rows = []"
proof (induction rows arbitrary: i)
  case Nil
  then show ?case by simp
next
  case (Cons r rest)
  have hd: "now i mod 600 \<noteq> 0" using Cons.prems[rule_format, of 0] by simp
  have "now (Suc i + j) mod 600 \<noteq> 0" if "j < length rest" for j
    using Cons.prems[rule_format, of "Suc j"] that by simp
  then have "aligned_rows now (Suc i) rest = []" by (intro Cons.IH) simp
  with hd show ?case by simp
qed


lemma read_prices_loop_none_aligned:
  assumes "\<forall>j<length rows. \<bar>now j\<bar> \<le> 600 * 2 ^ 44" "\<forall>j<length rows. now j mod 600 \<noteq> 0"
  shows "read_prices_loop now 0 rows Map.empty [] = Inr []"
proof -
  have e: "set [] = symbols_hold Map.empty" by simp
  have r: "\<forall>j<length rows. \<bar>now (0 + j)\<bar> \<le> 600 * 2 ^ 44" using assms(1) by simp
  from read_prices_loop_first_occurrences[where now = now and seen = "[]" and symbols = Map.empty
      and i = 0 and rows = rows and ps = "[]", OF r e] obtain kept where
    k: "read_prices_loop now 0 rows Map.empty [] = Inr ([] @ kept)"
       "map price_row.truncate kept = first_occurrences [] (aligned_rows now 0 rows)"
    by (elim exE conjE)
  have "aligned_rows now 0 rows = []" using assms(2) by (intro aligned_rows_none) simp
  then have "kept = []" using k(2) by simp
  then show ?thesis using k(1) by simp
qed

lemma truncate_sel [simp]:
  "source (price_row.truncate p) = source p"
  "symbol (price_row.truncate p) = symbol p"
  "price (price_row.truncate p) = price p"
  "buy_asset (price_row.truncate p) = buy_asset p"
  "sell_asset (price_row.truncate p) = sell_asset p"
  by (simp_all add: price_row.truncate_def)

lemma parse_price_sel [simp]:
  "pp_source (parse_price p) = source p"
  "pp_asset (parse_price p) = buy_asset p"
  "pp_price (parse_price p) = price p"
  "pp_timestamp (parse_price p) = normalized_timestamp p"
  "pp_asset_type (parse_price p) = ''other''"
  by (simp_all add: parse_price_def)

lemma group_prices_members:
  assumes "group_prices ps [] [] [] = Inr (xlm, usd, ss)" "q \<in> set xlm \<union> set usd"
  shows "\<exists>p\<in>set ps. q = parse_price p"
proof -
  from group_prices_supported[OF group_prices_Inr_supported[OF assms(1)], of "[]" "[]" "[]"]
  obtain ss' where g: "group_prices ps [] [] [] =
           Inr ([] @ map parse_price (filter (\<lambda>p. sell_asset p = ''XLM'') ps),
                [] @ map parse_price (filter (\<lambda>p. sell_asset p = ''USD'') ps), ss')"
    by (elim exE conjE)
  with assms(1) have "xlm = map parse_price (filter (\<lambda>p. sell_asset p = ''XLM'') ps)"
    "usd = map parse_price (filter (\<lambda>p. sell_asset p = ''USD'') ps)" by simp_all
  with assms(2) show ?thesis by auto
qed


section \<open>The claims about the batch feeder\<close>

subsection \<open>Marking rows as added\<close>

text \<open>
  C2 at a failing input. The table holds one unsent row, the clock shows 1200 and the
  subprocess reports a failure. The claim says that the pair of the row stays unmarked
  and the next run reads it again. The run logs the command with \<^verbatim>\<open>success = False\<close> and
  still sets \<^verbatim>\<open>added_to_blockchain\<close> of the row to 1: the flag returned by \<^verbatim>\<open>run_cli\<close> is
  passed to \<^verbatim>\<open>log_result_to_db\<close> only, and the marking loop runs whatever it was. The
  query of the next run then returns no row.
\<close>

theorem C2_failed_submission_marks_row:
  "read_prices_from_db (clock_at 1200) (cli_reports False ''error'') example_db =
     Inr \<lparr>prices = [example_row\<lparr>added_to_blockchain := 1\<rparr>],
          feed_bulk_from_db_logs =
            [\<lparr>command = \<lparr>oracle_contract_id = TESTNET_CONTRACT_XLM,
                          add_prices_base64 =
                            [\<lparr>pp_source = 1, pp_asset_type = ''other'', pp_asset = ''A'',
                              pp_price = ''1.00'', pp_timestamp = 1200\<rparr>]\<rparr>,
              output_text = ''error'', success = False\<rparr>]\<rparr>
   \<and> select_prices [example_row\<lparr>added_to_blockchain := 1\<rparr>] = []"
proof (intro conjI)
  show "read_prices_from_db (clock_at 1200) (cli_reports False ''error'') example_db =
     Inr \<lparr>prices = [example_row\<lparr>added_to_blockchain := 1\<rparr>],
          feed_bulk_from_db_logs =
            [\<lparr>command = \<lparr>oracle_contract_id = TESTNET_CONTRACT_XLM,
                          add_prices_base64 =
                            [\<lparr>pp_source = 1, pp_asset_type = ''other'', pp_asset = ''A'',
                              pp_price = ''1.00'', pp_timestamp = 1200\<rparr>]\<rparr>,
              output_text = ''error'', success = False\<rparr>]\<rparr>"
    unfolding read_prices_from_db_def select_example_db
    by (simp add: clock_at_def normalize_timestamp_examples
        add_prices_to_blockchain_def submit_group_def log_result_to_db_def cli_reports_def
        mark_symbols_as_added_to_blockchain_def parse_price_def with_normalized_timestamp_def
        price_row.truncate_def example_db_def example_row_def Let_def)
  show "select_prices [example_row\<lparr>added_to_blockchain := 1\<rparr>] = []"
    by (simp add: select_prices_def unsent_def example_row_def)
qed

subsection \<open>The timestamp handed to the submission\<close>

text \<open>
  C3, as amended. Let the clock readings of the run be in the range of C1. Every price
  that the feeder hands to a submission carries as \<^verbatim>\<open>timestamp\<close> the clock reading taken
  in the iteration that handled its row; that reading is an exact multiple of 600, so
  normalizing leaves it as it is. Source, asset and price are those of the row; the
  column \<^verbatim>\<open>updated_at\<close> of the row plays no part.
\<close>

theorem C3_forwarded_timestamp_is_clock_reading:
  assumes "\<forall>j<length rows. \<bar>now j\<bar> \<le> 600 * 2 ^ 44"
    and "read_prices_loop now 0 rows Map.empty [] = Inr ps"
    and "group_prices ps [] [] [] = Inr (xlm_based_prices, usd_based_prices, source_symbols)"
    and "q \<in> set xlm_based_prices \<union> set usd_based_prices"
  shows "\<exists>j<length rows. pp_timestamp q = now j \<and> now j mod 600 = 0
           \<and> normalize_timestamp (now j) RESOLUTION = Inr (now j)
           \<and> pp_source q = source (rows ! j) \<and> pp_asset q = buy_asset (rows ! j)
           \<and> pp_price q = price (rows ! j)"
proof -
  have r: "\<forall>j<length rows. \<bar>now (0 + j)\<bar> \<le> 600 * 2 ^ 44" using assms(1) by simp
  from read_prices_loop_kept[where now = now and i = 0 and rows = rows and symbols = Map.empty
      and ps = "[]", OF r] obtain kept where
    k: "read_prices_loop now 0 rows Map.empty [] = Inr ([] @ kept)"
    and kp: "\<forall>p\<in>set kept. kept_from now 0 rows p" by (elim exE conjE)
  have ps: "ps = kept" using k assms(2) by simp
  from group_prices_members[OF assms(3,4)] obtain p where p: "p \<in> set ps" "q = parse_price p"
    by (elim bexE)
  from kp p(1) ps have "kept_from now 0 rows p" by simp
  then obtain j where j: "j < length rows" "price_row.truncate p = rows ! j"
    "now j mod 600 = 0" "normalized_timestamp p = now j"
    unfolding kept_from_def by (elim exE conjE) simp
  have c: "\<bar>now j\<bar> \<le> 600 * 2 ^ 44" using assms(1) j(1) by simp
  from normalize_timestamp_gate[OF c] j(3)
  have n: "normalize_timestamp (now j) RESOLUTION = Inr (now j)" by auto
  have sel: "source (rows ! j) = source p" "buy_asset (rows ! j) = buy_asset p"
    "price (rows ! j) = price p"
    unfolding j(2)[symmetric] by simp_all
  show ?thesis
    using j(1,3,4) n sel p(2) by (intro exI[of _ j]) simp
qed

theorem C3_forwarded_timestamp_witness:
  "\<bar>clock_at 1200 0\<bar> \<le> 600 * 2 ^ 44
   \<and> read_prices_loop (clock_at 1200) 0 [first_quote] Map.empty []
       = Inr [with_normalized_timestamp first_quote 1200]
   \<and> group_prices [with_normalized_timestamp first_quote 1200] [] [] []
       = Inr ([parse_price (with_normalized_timestamp first_quote 1200)], [], [(1, [''AXLM''])])
   \<and> (\<exists>j<length [first_quote].
         pp_timestamp (parse_price (with_normalized_timestamp first_quote 1200)) = clock_at 1200 j
         \<and> clock_at 1200 j mod 600 = 0
         \<and> normalize_timestamp (clock_at 1200 j) RESOLUTION = Inr (clock_at 1200 j)
         \<and> pp_source (parse_price (with_normalized_timestamp first_quote 1200)) = source ([first_quote] ! j)
         \<and> pp_asset (parse_price (with_normalized_timestamp first_quote 1200)) = buy_asset ([first_quote] ! j)
         \<and> pp_price (parse_price (with_normalized_timestamp first_quote 1200)) = price ([first_quote] ! j))"
proof -
  have h1: "\<forall>j<length [first_quote]. \<bar>clock_at 1200 j\<bar> \<le> 600 * 2 ^ 44"
    by (simp add: clock_at_def)
  have h2: "read_prices_loop (clock_at 1200) 0 [first_quote] Map.empty []
       = Inr [with_normalized_timestamp first_quote 1200]"
    by (simp add: clock_at_def normalize_timestamp_examples Let_def)
  have h3: "group_prices [with_normalized_timestamp first_quote 1200] [] [] []
       = Inr ([parse_price (with_normalized_timestamp first_quote 1200)], [], [(1, [''AXLM''])])"
    by (simp add: first_quote_def with_normalized_timestamp_def Let_def)
  have h4: "parse_price (with_normalized_timestamp first_quote 1200)
      \<in> set [parse_price (with_normalized_timestamp first_quote 1200)] \<union> set []"
    by simp
  have h0: "\<bar>clock_at 1200 0\<bar> \<le> 600 * 2 ^ 44" by (simp add: clock_at_def)
  from C3_forwarded_timestamp_is_clock_reading[OF h1 h2 h3 h4] h0 h2 h3
  show ?thesis by (intro conjI)
qed

text \<open>
  C3 as stated fails. The row of \<open>example_db\<close> was updated at 1234, which rounds up to
  1800; read at clock time 1200 it is submitted with the timestamp 1200.
\<close>

theorem C3_row_timestamp_counterexample:
  "read_prices_from_db (clock_at 1200) (cli_reports True ''ok'') example_db =
     Inr \<lparr>prices = [example_row\<lparr>added_to_blockchain := 1\<rparr>],
          feed_bulk_from_db_logs =
            [\<lparr>command = \<lparr>oracle_contract_id = TESTNET_CONTRACT_XLM,
                          add_prices_base64 =
                            [\<lparr>pp_source = 1, pp_asset_type = ''other'', pp_asset = ''A'',
                              pp_price = ''1.00'', pp_timestamp = 1200\<rparr>]\<rparr>,
              output_text = ''ok'', success = True\<rparr>]\<rparr>
   \<and> updated_at example_row = 1234
   \<and> normalize_timestamp 1234 RESOLUTION = Inr 1800"
  unfolding read_prices_from_db_def select_example_db
  by (simp add: clock_at_def normalize_timestamp_examples
      add_prices_to_blockchain_def submit_group_def log_result_to_db_def cli_reports_def
      mark_symbols_as_added_to_blockchain_def parse_price_def with_normalized_timestamp_def
      price_row.truncate_def example_db_def example_row_def Let_def)

subsection \<open>The gate on the clock\<close>

text \<open>
  C4. Let the clock readings of the run be in the range of C1 (every time a
  \<^verbatim>\<open>datetime\<close> can hold is) and \<open>rows\<close> the result of the query. The loop returns, and each
  entry of \<^verbatim>\<open>prices\<close> is a row whose iteration read an exact multiple of 600 from the
  clock. If no iteration reads a multiple of 600, the run ends with the database as it
  found it: no command is run, nothing is logged and no row is marked.
\<close>

theorem C4_rows_kept_only_at_multiples_of_600:
  assumes "\<forall>j<length rows. \<bar>now j\<bar> \<le> 600 * 2 ^ 44"
    and "rows = select_prices (prices d)"
  shows "(\<exists>kept. read_prices_loop now 0 rows Map.empty [] = Inr kept
            \<and> (\<forall>p\<in>set kept. \<exists>j<length rows. price_row.truncate p = rows ! j \<and> now j mod 600 = 0))
       \<and> ((\<forall>j<length rows. now j mod 600 \<noteq> 0) \<longrightarrow> read_prices_from_db now run_cli d = Inr d)"
proof (intro conjI impI)
  have r: "\<forall>j<length rows. \<bar>now (0 + j)\<bar> \<le> 600 * 2 ^ 44" using assms(1) by simp
  from read_prices_loop_kept[where now = now and i = 0 and rows = rows and symbols = Map.empty
      and ps = "[]", OF r] obtain kept where
    k: "read_prices_loop now 0 rows Map.empty [] = Inr ([] @ kept)"
    and kp: "\<forall>p\<in>set kept. kept_from now 0 rows p" by (elim exE conjE)
  have l: "read_prices_loop now 0 rows Map.empty [] = Inr kept" using k by simp
  have m: "\<forall>p\<in>set kept. \<exists>j<length rows. price_row.truncate p = rows ! j \<and> now j mod 600 = 0"
  proof
    fix p assume "p \<in> set kept"
    with kp have "kept_from now 0 rows p" by simp
    then obtain j where j: "j < length rows" "price_row.truncate p = rows ! j" "now j mod 600 = 0"
      unfolding kept_from_def by (elim exE conjE) simp
    show "\<exists>j<length rows. price_row.truncate p = rows ! j \<and> now j mod 600 = 0"
      by (intro exI[of _ j] conjI j)
  qed
  show "\<exists>kept. read_prices_loop now 0 rows Map.empty [] = Inr kept
            \<and> (\<forall>p\<in>set kept. \<exists>j<length rows. price_row.truncate p = rows ! j \<and> now j mod 600 = 0)"
    by (intro exI[of _ kept] conjI l m)
next
  assume "\<forall>j<length rows. now j mod 600 \<noteq> 0"
  from read_prices_loop_none_aligned[OF assms(1) this]
  show "read_prices_from_db now run_cli d = Inr d"
    by (simp add: read_prices_from_db_def assms(2)[symmetric])
qed

theorem C4_rows_kept_witness:
  "\<bar>clock_from 1199 0\<bar> \<le> 600 * 2 ^ 44 \<and> \<bar>clock_from 1199 1\<bar> \<le> 600 * 2 ^ 44
   \<and> [first_quote, second_quote] = select_prices (prices two_quotes_db)
   \<and> read_prices_loop (clock_from 1199) 0 [first_quote, second_quote] Map.empty []
       = Inr [with_normalized_timestamp second_quote 1200]
   \<and> (\<exists>j<length [first_quote, second_quote].
         price_row.truncate (with_normalized_timestamp second_quote 1200) = [first_quote, second_quote] ! j
         \<and> clock_from 1199 j mod 600 = 0)
   \<and> [price_row.truncate example_row] = select_prices (prices example_db)
   \<and> \<bar>clock_at 1201 0\<bar> \<le> 600 * 2 ^ 44
   \<and> clock_at 1201 0 mod 600 \<noteq> 0
   \<and> read_prices_from_db (clock_at 1201) (cli_reports True ''ok'') example_db = Inr example_db"
proof -
  have a1: "\<forall>j<length [first_quote, second_quote]. \<bar>clock_from 1199 j\<bar> \<le> 600 * 2 ^ 44"
    by (simp add: clock_from_def)
  have a2: "[first_quote, second_quote] = select_prices (prices two_quotes_db)"
    by (simp add: select_two_quotes_db)
  have a3: "read_prices_loop (clock_from 1199) 0 [first_quote, second_quote] Map.empty []
       = Inr [with_normalized_timestamp second_quote 1200]"
    by (simp add: clock_from_def normalize_timestamp_examples first_quote_def second_quote_def Let_def)
  from C4_rows_kept_only_at_multiples_of_600[OF a1 a2, of "cli_reports True ''ok''"] a3
  have a4: "\<exists>j<length [first_quote, second_quote].
         price_row.truncate (with_normalized_timestamp second_quote 1200) = [first_quote, second_quote] ! j
         \<and> clock_from 1199 j mod 600 = 0"
    by simp
  have b1: "\<forall>j<length [price_row.truncate example_row]. \<bar>clock_at 1201 j\<bar> \<le> 600 * 2 ^ 44"
    by (simp add: clock_at_def)
  have b2: "[price_row.truncate example_row] = select_prices (prices example_db)"
    by (simp add: select_example_db)
  have b3: "\<forall>j<length [price_row.truncate example_row]. clock_at 1201 j mod 600 \<noteq> 0"
    by (simp add: clock_at_def)
  from C4_rows_kept_only_at_multiples_of_600[OF b1 b2, of "cli_reports True ''ok''"] b3
  have b4: "read_prices_from_db (clock_at 1201) (cli_reports True ''ok'') example_db = Inr example_db"
    by simp
  have a0: "\<bar>clock_from 1199 0\<bar> \<le> 600 * 2 ^ 44" "\<bar>clock_from 1199 1\<bar> \<le> 600 * 2 ^ 44"
    by (simp_all add: clock_from_def)
  have b0: "\<bar>clock_at 1201 0\<bar> \<le> 600 * 2 ^ 44" "clock_at 1201 0 mod 600 \<noteq> 0"
    by (simp_all add: clock_at_def)
  show ?thesis by (intro conjI a0 a2 a3 a4 b2 b0 b4)
qed

subsection \<open>Duplicate symbols\<close>




subsection \<open>The two groups\<close>

text \<open>
  C6. When every row has the sell asset XLM or USD, the grouping loop returns the two
  groups: one entry for each XLM row and one for each USD row, each group in input
  order. The entry of a row carries the row's source, the asset type \<^verbatim>\<open>other\<close>, the row's
  buy asset as asset, its price, and its normalized timestamp as timestamp. No row is in
  both selections, together they hold every row of the input as often as the input
  does, each selection is a subsequence of the input, and the two groups have as many
  entries as the input has rows.
\<close>

theorem C6_groups_partition_the_input:
  assumes "\<forall>p\<in>set ps. sell_asset p = ''XLM'' \<or> sell_asset p = ''USD''"
  shows "(\<exists>source_symbols. group_prices ps [] [] [] =
            Inr (map (\<lambda>p. \<lparr>pp_source = source p, pp_asset_type = ''other'', pp_asset = buy_asset p,
                            pp_price = price p, pp_timestamp = normalized_timestamp p\<rparr>)
                   (filter (\<lambda>p. sell_asset p = ''XLM'') ps),
                 map (\<lambda>p. \<lparr>pp_source = source p, pp_asset_type = ''other'', pp_asset = buy_asset p,
                            pp_price = price p, pp_timestamp = normalized_timestamp p\<rparr>)
                   (filter (\<lambda>p. sell_asset p = ''USD'') ps),
                 source_symbols))
       \<and> set (filter (\<lambda>p. sell_asset p = ''XLM'') ps) \<inter> set (filter (\<lambda>p. sell_asset p = ''USD'') ps) = {}
       \<and> mset (filter (\<lambda>p. sell_asset p = ''XLM'') ps) + mset (filter (\<lambda>p. sell_asset p = ''USD'') ps)
           = mset ps
       \<and> subseq (filter (\<lambda>p. sell_asset p = ''XLM'') ps) ps
       \<and> subseq (filter (\<lambda>p. sell_asset p = ''USD'') ps) ps
       \<and> length (filter (\<lambda>p. sell_asset p = ''XLM'') ps) + length (filter (\<lambda>p. sell_asset p = ''USD'') ps)
           = length ps"
proof (intro conjI)
  from group_prices_supported[OF assms, of "[]" "[]" "[]"]
  obtain ss' where g: "group_prices ps [] [] [] =
           Inr ([] @ map parse_price (filter (\<lambda>p. sell_asset p = ''XLM'') ps),
                [] @ map parse_price (filter (\<lambda>p. sell_asset p = ''USD'') ps), ss')"
    by (elim exE conjE)
  have "group_prices ps [] [] [] =
            Inr (map (\<lambda>p. \<lparr>pp_source = source p, pp_asset_type = ''other'', pp_asset = buy_asset p,
                            pp_price = price p, pp_timestamp = normalized_timestamp p\<rparr>)
                   (filter (\<lambda>p. sell_asset p = ''XLM'') ps),
                 map (\<lambda>p. \<lparr>pp_source = source p, pp_asset_type = ''other'', pp_asset = buy_asset p,
                            pp_price = price p, pp_timestamp = normalized_timestamp p\<rparr>)
                   (filter (\<lambda>p. sell_asset p = ''USD'') ps),
                 ss')"
    using g by (simp add: parse_price_def[abs_def])
  then show "\<exists>source_symbols. group_prices ps [] [] [] =
            Inr (map (\<lambda>p. \<lparr>pp_source = source p, pp_asset_type = ''other'', pp_asset = buy_asset p,
                            pp_price = price p, pp_timestamp = normalized_timestamp p\<rparr>)
                   (filter (\<lambda>p. sell_asset p = ''XLM'') ps),
                 map (\<lambda>p. \<lparr>pp_source = source p, pp_asset_type = ''other'', pp_asset = buy_asset p,
                            pp_price = price p, pp_timestamp = normalized_timestamp p\<rparr>)
                   (filter (\<lambda>p. sell_asset p = ''USD'') ps),
                 source_symbols)"
    by (intro exI[of _ ss'])
next
  show "set (filter (\<lambda>p. sell_asset p = ''XLM'') ps) \<inter> set (filter (\<lambda>p. sell_asset p = ''USD'') ps) = {}"
    by auto
next
  have usd: "filter (\<lambda>p. sell_asset p = ''USD'') ps = filter (\<lambda>p. \<not> sell_asset p = ''XLM'') ps"
    using assms by (intro filter_cong) auto
  show "mset (filter (\<lambda>p. sell_asset p = ''XLM'') ps) + mset (filter (\<lambda>p. sell_asset p = ''USD'') ps)
           = mset ps"
    unfolding usd by simp
  show "length (filter (\<lambda>p. sell_asset p = ''XLM'') ps) + length (filter (\<lambda>p. sell_asset p = ''USD'') ps)
           = length ps"
    unfolding usd by (rule sum_length_filter_compl)
next
  show "subseq (filter (\<lambda>p. sell_asset p = ''XLM'') ps) ps" by simp
next
  show "subseq (filter (\<lambda>p. sell_asset p = ''USD'') ps) ps" by simp
qed

theorem C6_groups_partition_witness:
  "sell_asset (with_normalized_timestamp first_quote 1200) = ''XLM''
   \<and> sell_asset (with_normalized_timestamp usd_quote 1200) = ''USD''
   \<and> group_prices [with_normalized_timestamp first_quote 1200, with_normalized_timestamp usd_quote 1200]
        [] [] []
       = Inr ([\<lparr>pp_source = 1, pp_asset_type = ''other'', pp_asset = ''A'', pp_price = ''2.00'',
                pp_timestamp = 1200\<rparr>],
              [\<lparr>pp_source = 2, pp_asset_type = ''other'', pp_asset = ''B'', pp_price = ''3.00'',
                pp_timestamp = 1200\<rparr>],
              [(1, [''AXLM'']), (2, [''BUSD''])])"
proof -
  let ?ps = "[with_normalized_timestamp first_quote 1200, with_normalized_timestamp usd_quote 1200]"
  have h: "\<forall>p\<in>set ?ps. sell_asset p = ''XLM'' \<or> sell_asset p = ''USD''"
    by (simp add: first_quote_def usd_quote_def)
  have x: "filter (\<lambda>p. sell_asset p = ''XLM'') ?ps = [with_normalized_timestamp first_quote 1200]"
    and u: "filter (\<lambda>p. sell_asset p = ''USD'') ?ps = [with_normalized_timestamp usd_quote 1200]"
    by (simp_all add: first_quote_def usd_quote_def)
  from C6_groups_partition_the_input[OF h] obtain source_symbols where
    g: "group_prices ?ps [] [] [] =
            Inr (map (\<lambda>p. \<lparr>pp_source = source p, pp_asset_type = ''other'', pp_asset = buy_asset p,
                            pp_price = price p, pp_timestamp = normalized_timestamp p\<rparr>)
                   (filter (\<lambda>p. sell_asset p = ''XLM'') ?ps),
                 map (\<lambda>p. \<lparr>pp_source = source p, pp_asset_type = ''other'', pp_asset = buy_asset p,
                            pp_price = price p, pp_timestamp = normalized_timestamp p\<rparr>)
                   (filter (\<lambda>p. sell_asset p = ''USD'') ?ps),
                 source_symbols)"
    by (elim exE conjE)
  have "group_prices ?ps [] [] [] =
      Inr ([\<lparr>pp_source = 1, pp_asset_type = ''other'', pp_asset = ''A'', pp_price = ''2.00'',
                pp_timestamp = 1200\<rparr>],
              [\<lparr>pp_source = 2, pp_asset_type = ''other'', pp_asset = ''B'', pp_price = ''3.00'',
                pp_timestamp = 1200\<rparr>],
              [(1, [''AXLM'']), (2, [''BUSD''])])"
    using g unfolding x u by (simp add: first_quote_def usd_quote_def parse_price_def Let_def)
  then show ?thesis by (simp add: first_quote_def usd_quote_def)
qed

text \<open>
  C7. When some row of the list has a sell asset other than XLM and USD,
  \<^verbatim>\<open>add_prices_to_blockchain\<close> raises \<^verbatim>\<open>ValueError\<close> with the message naming the sell asset
  of such a row; it does not return, so nothing is submitted, logged or marked.
\<close>

theorem C7_unsupported_sell_asset_raises:
  assumes "\<exists>p\<in>set ps. sell_asset p \<noteq> ''XLM'' \<and> sell_asset p \<noteq> ''USD''"
  shows "\<exists>b\<in>set ps. sell_asset b \<noteq> ''XLM'' \<and> sell_asset b \<noteq> ''USD''
           \<and> add_prices_to_blockchain run_cli ps d
               = Inl (ValueError (''Unexpected price sell_asset: '' @ sell_asset b))"
proof -
  let ?bad = "\<lambda>p. sell_asset p \<noteq> ''XLM'' \<and> sell_asset p \<noteq> ''USD''"
  from assms have "find ?bad ps \<noteq> None" by (auto simp add: find_None_iff)
  then obtain b where b: "find ?bad ps = Some b" by auto
  then have mem: "b \<in> set ps" and bad: "?bad b"
    by (auto simp add: find_Some_iff)
  have "add_prices_to_blockchain run_cli ps d
               = Inl (ValueError (''Unexpected price sell_asset: '' @ sell_asset b))"
    using group_prices_unsupported[OF b, of "[]" "[]" "[]"]
    by (simp add: add_prices_to_blockchain_def)
  with mem bad show ?thesis by (intro bexI[of _ b]) simp_all
qed

theorem C7_unsupported_sell_asset_witness:
  "(\<exists>p\<in>set [with_normalized_timestamp first_quote 1200, with_normalized_timestamp eur_quote 1200].
       sell_asset p \<noteq> ''XLM'' \<and> sell_asset p \<noteq> ''USD'')
   \<and> add_prices_to_blockchain (cli_reports True ''ok'')
        [with_normalized_timestamp first_quote 1200, with_normalized_timestamp eur_quote 1200] example_db
       = Inl (ValueError ''Unexpected price sell_asset: EUR'')"
proof -
  let ?ps = "[with_normalized_timestamp first_quote 1200, with_normalized_timestamp eur_quote 1200]"
  have h: "\<exists>p\<in>set ?ps. sell_asset p \<noteq> ''XLM'' \<and> sell_asset p \<noteq> ''USD''"
    by (simp add: eur_quote_def)
  from C7_unsupported_sell_asset_raises[OF h, of "cli_reports True ''ok''" example_db]
  obtain b where b: "b \<in> set ?ps" "sell_asset b \<noteq> ''XLM''" "sell_asset b \<noteq> ''USD''"
    and r: "add_prices_to_blockchain (cli_reports True ''ok'') ?ps example_db
               = Inl (ValueError (''Unexpected price sell_asset: '' @ sell_asset b))"
    by (elim bexE conjE)
  from b have "b = with_normalized_timestamp eur_quote 1200"
    by (auto simp add: first_quote_def)
  then have "sell_asset b = ''EUR''" by (simp add: eur_quote_def)
  with r h show ?thesis by simp
qed

section \<open>The claims about the command-line clients\<close>

subsection \<open>The wait loop\<close>

lemma wait_tx_found:
  "tx_status (get_transaction i) \<noteq> NOT_FOUND \<Longrightarrow>
     wait_tx get_transaction i slept = Some (get_transaction i, slept)"
  by (subst wait_tx.simps) (simp add: Let_def)

lemma wait_tx_not_found:
  "tx_status (get_transaction i) = NOT_FOUND \<Longrightarrow>
     wait_tx get_transaction i slept = wait_tx get_transaction (Suc i) (slept + 3)"
  by (subst wait_tx.simps) (simp add: Let_def)

lemma wait_tx_skip:
  "\<forall>k<n. tx_status (get_transaction (i + k)) = NOT_FOUND \<Longrightarrow>
     wait_tx get_transaction i slept = wait_tx get_transaction (i + n) (slept + 3 * n)"
proof (induction n arbitrary: i slept)
  case 0
  then show ?case by simp
next
  case (Suc n)
  have hd: "tx_status (get_transaction i) = NOT_FOUND" using Suc.prems[rule_format, of 0] by simp
  have "tx_status (get_transaction (Suc i + k)) = NOT_FOUND" if "k < n" for k
    using Suc.prems[rule_format, of "Suc k"] that by simp
  then have "wait_tx get_transaction (Suc i) (slept + 3)
      = wait_tx get_transaction (Suc i + n) (slept + 3 + 3 * n)"
    by (intro Suc.IH) simp
  moreover have "slept + 3 + 3 * n = slept + 3 * Suc n" "Suc i + n = i + Suc n" by simp_all
  ultimately have "wait_tx get_transaction (Suc i) (slept + 3)
      = wait_tx get_transaction (i + Suc n) (slept + 3 * Suc n)" by (simp only:)
  then show ?case using wait_tx_not_found[of get_transaction i slept] hd by (simp only:)
qed

lemma wait_tx_Some_settled:
  assumes "wait_tx get_transaction i slept = Some r"
  shows "\<exists>n. tx_status (get_transaction n) \<noteq> NOT_FOUND"
  using assms
proof (induction arbitrary: r rule: wait_tx.raw_induct[rotated 1, consumes 1])
  case (1 wait_tx' get_transaction i slept r)
  show ?case
  proof (cases "tx_status (get_transaction i) = NOT_FOUND")
    case True
    with 1(2) have "wait_tx' get_transaction (Suc i) (slept + 3) = Some r"
      by (simp add: Let_def)
    then show ?thesis by (rule 1(1))
  next
    case False
    then show ?thesis by (intro exI[of _ i])
  qed
qed

text \<open>
  C9. \<^verbatim>\<open>wait_tx\<close> returns the first poll answer whose status is not \<^verbatim>\<open>NOT_FOUND\<close>: if that
  is the answer to poll number \<open>n\<close> (counted from 0), it is returned after \<open>n\<close> sleeps of 3
  seconds, however large \<open>n\<close> is. The loop ends if and only if some answer of the sequence
  has a status other than \<^verbatim>\<open>NOT_FOUND\<close>.
\<close>

theorem C9_wait_tx_first_settled_response:
  "(tx_status (get_transaction n) \<noteq> NOT_FOUND \<and> (\<forall>i<n. tx_status (get_transaction i) = NOT_FOUND)
      \<longrightarrow> wait_tx get_transaction 0 0 = Some (get_transaction n, 3 * n))
   \<and> (wait_tx get_transaction 0 0 \<noteq> None \<longleftrightarrow> (\<exists>i. tx_status (get_transaction i) \<noteq> NOT_FOUND))"
proof (intro conjI impI iffI)
  assume a: "tx_status (get_transaction n) \<noteq> NOT_FOUND \<and> (\<forall>i<n. tx_status (get_transaction i) = NOT_FOUND)"
  then have "\<forall>k<n. tx_status (get_transaction (0 + k)) = NOT_FOUND" by simp
  from wait_tx_skip[OF this, of 0]
  have "wait_tx get_transaction 0 0 = wait_tx get_transaction n (3 * n)" by simp
  also have "\<dots> = Some (get_transaction n, 3 * n)" using a by (intro wait_tx_found) simp
  finally show "wait_tx get_transaction 0 0 = Some (get_transaction n, 3 * n)" .
next
  assume "wait_tx get_transaction 0 0 \<noteq> None"
  then obtain r where "wait_tx get_transaction 0 0 = Some r" by auto
  then show "\<exists>i. tx_status (get_transaction i) \<noteq> NOT_FOUND" by (rule wait_tx_Some_settled)
next
  assume "\<exists>i. tx_status (get_transaction i) \<noteq> NOT_FOUND"
  define m where "m = (LEAST i. tx_status (get_transaction i) \<noteq> NOT_FOUND)"
  have m: "tx_status (get_transaction m) \<noteq> NOT_FOUND"
    unfolding m_def using \<open>\<exists>i. tx_status (get_transaction i) \<noteq> NOT_FOUND\<close> by (elim exE) (rule LeastI)
  have "tx_status (get_transaction k) = NOT_FOUND" if "k < m" for k
    using not_less_Least[of k "\<lambda>i. tx_status (get_transaction i) \<noteq> NOT_FOUND"] that
    unfolding m_def by simp
  then have "\<forall>k<m. tx_status (get_transaction (0 + k)) = NOT_FOUND" by simp
  from wait_tx_skip[OF this, of 0]
  have "wait_tx get_transaction 0 0 = wait_tx get_transaction m (3 * m)" by simp
  also have "\<dots> = Some (get_transaction m, 3 * m)" using m by (intro wait_tx_found)
  finally show "wait_tx get_transaction 0 0 \<noteq> None" by simp
qed

theorem C9_wait_tx_witness:
  "tx_status (polls_settling_at 2 FAILED 0) = NOT_FOUND
   \<and> tx_status (polls_settling_at 2 FAILED 1) = NOT_FOUND
   \<and> tx_status (polls_settling_at 2 FAILED 2) \<noteq> NOT_FOUND
   \<and> wait_tx (polls_settling_at 2 FAILED) 0 0
       = Some (\<lparr>tx_status = FAILED, result_meta_xdr = None\<rparr>, 6)"
proof -
  have h: "tx_status (polls_settling_at 2 FAILED 2) \<noteq> NOT_FOUND
     \<and> (\<forall>i<2. tx_status (polls_settling_at 2 FAILED i) = NOT_FOUND)"
    by (simp add: polls_settling_at_def)
  from C9_wait_tx_first_settled_response[of "polls_settling_at 2 FAILED" 2] h
  have "wait_tx (polls_settling_at 2 FAILED) 0 0 = Some (polls_settling_at 2 FAILED 2, 3 * 2)"
    by (elim conjE impE) simp_all
  then show ?thesis by (simp add: polls_settling_at_def)
qed

subsection \<open>Exit codes\<close>

lemma wait_tx_polls_settling_at:
  "st \<noteq> NOT_FOUND \<Longrightarrow>
     wait_tx (polls_settling_at n st) 0 0 = Some (\<lparr>tx_status = st, result_meta_xdr = None\<rparr>, 3 * n)"
proof -
  assume st: "st \<noteq> NOT_FOUND"
  have "\<forall>k<n. tx_status (polls_settling_at n st (0 + k)) = NOT_FOUND"
    by (simp add: polls_settling_at_def)
  from wait_tx_skip[OF this, of 0]
  have "wait_tx (polls_settling_at n st) 0 0 = wait_tx (polls_settling_at n st) n (3 * n)" by simp
  also have "\<dots> = Some (polls_settling_at n st n, 3 * n)"
    using st by (intro wait_tx_found) (simp add: polls_settling_at_def)
  finally show ?thesis by (simp add: polls_settling_at_def)
qed

text \<open>
  C8 at a failing input of the example client. The transaction is sent, the first poll
  finds nothing and the second reports \<^verbatim>\<open>FAILED\<close>: the command reports the error through
  \<^verbatim>\<open>abort\<close> and the process ends with exit code 0, where the claim says 1. The \<^verbatim>\<open>abort\<close> of
  \<^verbatim>\<open>sep40/cli/cli.py\<close>, reached by a failed RPC request, ends the process with code 1.
\<close>

theorem C8_example_cli_failure_exit_code:
  "map_option exit_code
      (invoke_and_output decode_and_print \<lparr>send_status = PENDING, hash = ''abc''\<rparr>
         (polls_settling_at 1 FAILED))
     = Some 0
   \<and> exit_code (perform_rpc_request
                   \<lparr>status_code = 500, text_body = ''error'', json_body = None\<rparr>) = 1"
  by (simp add: invoke_and_output_def invoke_contract_function_def send_tx_def
      wait_tx_polls_settling_at abort_example_def abort_def typer_Exit_def perform_rpc_request_def)

subsection \<open>The asset argument\<close>

text \<open>
  C10. For each member of \<^verbatim>\<open>AssetType\<close>, \<^verbatim>\<open>build_asset_enum\<close> takes the branch of that member
  (\<^verbatim>\<open>Stellar\<close> with an address, \<^verbatim>\<open>Other\<close> with a symbol) and never gives the value of the
  fallback branch. For a value that is no member of the enumeration it returns a
  \<^verbatim>\<open>ValueError\<close> object as its result: nothing is raised.
\<close>

theorem C10_build_asset_enum_branches:
  "(\<forall>t. build_asset_enum to_address to_symbol (EnumMember t) asset
          = (case t of stellar \<Rightarrow> to_enum ''Stellar'' (to_address asset)
                     | other \<Rightarrow> to_enum ''Other'' (to_symbol asset))
        \<and> build_asset_enum to_address to_symbol (EnumMember t) asset \<noteq> Inr (ExceptionObject e))
   \<and> ((\<forall>t. v \<noteq> EnumMember t) \<longrightarrow>
         build_asset_enum to_address to_symbol v asset
           = Inr (ExceptionObject (ValueError (''unexpected asset_type: '' @ py_str v))))"
proof (intro conjI allI impI)
  fix t
  show "build_asset_enum to_address to_symbol (EnumMember t) asset
          = (case t of stellar \<Rightarrow> to_enum ''Stellar'' (to_address asset)
                     | other \<Rightarrow> to_enum ''Other'' (to_symbol asset))"
    by (cases t) (simp_all add: build_asset_enum_def)
  show "build_asset_enum to_address to_symbol (EnumMember t) asset \<noteq> Inr (ExceptionObject e)"
    by (cases t) (auto simp add: build_asset_enum_def to_enum_def split: sum.splits)
next
  assume "\<forall>t. v \<noteq> EnumMember t"
  then have "v \<noteq> EnumMember stellar" "v \<noteq> EnumMember other" by simp_all
  then show "build_asset_enum to_address to_symbol v asset
           = Inr (ExceptionObject (ValueError (''unexpected asset_type: '' @ py_str v)))"
    by (simp add: build_asset_enum_def)
qed

theorem C10_build_asset_enum_witness:
  "(\<forall>t. PyStr ''stellar'' \<noteq> EnumMember t)
   \<and> build_asset_enum accept_address accept_symbol (PyStr ''stellar'') ''GABC''
       = Inr (ExceptionObject (ValueError ''unexpected asset_type: stellar''))
   \<and> build_asset_enum accept_address accept_symbol (EnumMember other) ''USD''
       = Inr (ScVal (ScEnum ''Other'' (ScSymbol ''USD'')))"
proof -
  have h: "\<forall>t. PyStr ''stellar'' \<noteq> EnumMember t" by simp
  from C10_build_asset_enum_branches[where to_address = accept_address and to_symbol = accept_symbol
      and asset = "''GABC''" and v = "PyStr ''stellar''"] h
  have a: "build_asset_enum accept_address accept_symbol (PyStr ''stellar'') ''GABC''
       = Inr (ExceptionObject (ValueError ''unexpected asset_type: stellar''))"
    by simp
  from C10_build_asset_enum_branches[where to_address = accept_address and to_symbol = accept_symbol
      and asset = "''USD''" and v = PyNone]
  have b: "build_asset_enum accept_address accept_symbol (EnumMember other) ''USD''
       = Inr (ScVal (ScEnum ''Other'' (ScSymbol ''USD'')))"
    by (simp add: to_enum_def accept_symbol_def)
  from h a b show ?thesis by (intro conjI)
qed

end
